theory Spec2Isabelle
  imports Main "HOL-Library.AList" "HOL-Library.Code_Target_Nat"
begin

section \<open>Python strings\<close>

text \<open>
  The pipeline of \<^verbatim>\<open>tools/neo4j_rag.py\<close> works on Python \<^verbatim>\<open>str\<close> values. They are
  modelled as \<^typ>\<open>string\<close>; the model is meant for ASCII text, where \<^verbatim>\<open>lower\<close>,
  \<^verbatim>\<open>upper\<close> and the regular expression classes have their ASCII meaning. The few
  non-ASCII symbols of the source's literals are spelled as their UTF-8 bytes.
\<close>

definition lower_char :: "char \<Rightarrow> char" where
  "lower_char c =
     (let n = (of_char c :: nat) in if 65 \<le> n \<and> n \<le> 90 then char_of (n + 32) else c)"

definition upper_char :: "char \<Rightarrow> char" where
  "upper_char c =
     (let n = (of_char c :: nat) in if 97 \<le> n \<and> n \<le> 122 then char_of (n - 32) else c)"

definition lower :: "string \<Rightarrow> string" where
  "lower s = map lower_char s"

definition upper :: "string \<Rightarrow> string" where
  "upper s = map upper_char s"

fun startswith :: "string \<Rightarrow> string \<Rightarrow> bool" where
  "startswith s [] = True"
| "startswith [] (p # ps) = False"
| "startswith (c # cs) (p # ps) = (c = p \<and> startswith cs ps)"

text \<open>\<^verbatim>\<open>s.find(sub)\<close>: the lowest index where \<^verbatim>\<open>sub\<close> starts, if there is one.\<close>

fun str_find :: "string \<Rightarrow> string \<Rightarrow> nat option" where
  "str_find [] sub = (if sub = [] then Some 0 else None)"
| "str_find (c # cs) sub =
     (if startswith (c # cs) sub then Some 0 else map_option Suc (str_find cs sub))"

text \<open>\<^verbatim>\<open>sub in s\<close>.\<close>

definition contains :: "string \<Rightarrow> string \<Rightarrow> bool" where
  "contains s sub = (str_find s sub \<noteq> None)"

text \<open>
  \<^verbatim>\<open>s.replace(old, new)\<close>: the occurrences of \<^verbatim>\<open>old\<close> are replaced from left to right,
  without overlap. The source never calls it with an empty \<^verbatim>\<open>old\<close>.
\<close>

fun replace :: "string \<Rightarrow> string \<Rightarrow> string \<Rightarrow> string" where
  "replace [] old new = []"
| "replace (c # cs) old new =
     (if old \<noteq> [] \<and> startswith (c # cs) old
      then new @ replace (drop (length old - 1) cs) old new
      else c # replace cs old new)"

text \<open>\<^verbatim>\<open>sep.join(parts)\<close>.\<close>

fun join :: "string \<Rightarrow> string list \<Rightarrow> string" where
  "join sep [] = []"
| "join sep [x] = x"
| "join sep (x # y # ys) = x @ sep @ join sep (y # ys)"

section \<open>Python sets of strings\<close>

text \<open>
  A Python \<^verbatim>\<open>set\<close> has no duplicates and is iterated in an order that the language
  leaves open: for strings it follows the interpreter's string hash, which is fixed
  while a process runs. The model represents a set by the list of its elements in
  iteration order. The order is a parameter: a ranking \<open>h\<close> of strings, elements being
  visited by increasing rank and, at equal rank, in order of first insertion.
\<close>

definition set_iter :: "(string \<Rightarrow> nat) \<Rightarrow> string list \<Rightarrow> string list" where
  "set_iter h xs = sort_key h (rev (remdups (rev xs)))"

section \<open>KeywordExtractor\<close>

definition mod_keywords :: "string list" where
  "mod_keywords =
     [''infinite-magic'', ''infinite magic'', ''magic'',
      ''2x-speed'', ''2x speed'', ''double speed'', ''speed'',
      ''max-hearts'', ''max hearts'', ''health'', ''hearts'',
      ''intro-skip'', ''intro skip'',
      ''quick-start'', ''quick start'',
      ''team-solution'', ''ultimate'']"

definition hardware_keywords :: "string list" where
  "hardware_keywords =
     [''ppu'', ''cpu'', ''dma'', ''hdma'', ''apu'', ''spc700'',
      ''register'', ''registers'', ''$2100'', ''$4200'',
      ''vblank'', ''hblank'', ''sprite'', ''oam'',
      ''bgmode'', ''background'', ''tilemap'']"

definition component_keywords :: "string list" where
  "component_keywords =
     [''player'', ''sprite'', ''ancilla'', ''dungeon'',
      ''overworld'', ''hud'', ''audio'', ''music'',
      ''ending'', ''attract'', ''menu'']"

definition project_keywords :: "string list" where
  "project_keywords =
     [''zelda3'', ''zelda 3'', ''link to the past'', ''alttp'',
      ''bsnes'', ''snes9x'', ''emulator'',
      ''disassembly'', ''decompilation'']"

definition memory_keywords :: "string list" where
  "memory_keywords =
     [''wram'', ''sram'', ''rom'', ''memory'', ''bank'',
      ''address'', ''pointer'']"

definition all_keywords :: "string list" where
  "all_keywords =
     mod_keywords @ hardware_keywords @ component_keywords @
     project_keywords @ memory_keywords"

text \<open>\<^verbatim>\<open>keyword.replace(" ", "-").replace("$", "")\<close>.\<close>

definition normalize_keyword :: "string \<Rightarrow> string" where
  "normalize_keyword keyword = replace (replace keyword '' '' ''-'') ''$'' []"

text \<open>
  \<^verbatim>\<open>extract_keywords\<close>: the phrases of the vocabulary that occur in the lowercased
  text are added, normalised, to a set; the result is that set, in iteration order.
\<close>

definition extract_keywords :: "(string \<Rightarrow> nat) \<Rightarrow> string \<Rightarrow> string list" where
  "extract_keywords h text =
     (let text_lower = lower text
      in set_iter h
           (map normalize_keyword (filter (\<lambda>keyword. contains text_lower keyword) all_keywords)))"

section \<open>Values, records and errors\<close>

text \<open>
  A record returned by the graph store is a Python \<^verbatim>\<open>dict\<close> from column names to
  values; the values the population scripts write are strings, integers and lists of
  strings, and a missing property reads as \<^verbatim>\<open>None\<close>. A dict is an association list in
  insertion order, read with \<^const>\<open>map_of\<close> and written with \<^const>\<open>AList.update\<close>.
\<close>

datatype pyval = PStr string | PNone | PInt int | PList "string list"

type_synonym pydict = "(string \<times> pyval) list"

datatype error = Neo4jError | AttributeError | KeyError | TypeError | ValueError

text \<open>Sequencing of two steps, the first of which may raise.\<close>

definition then_do :: "error + 'a \<Rightarrow> ('a \<Rightarrow> error + 'b) \<Rightarrow> error + 'b" where
  "then_do r f = (case r of Inl e \<Rightarrow> Inl e | Inr x \<Rightarrow> f x)"

text \<open>A loop that collects one result per element and stops at the first exception.\<close>

fun for_each :: "('a \<Rightarrow> error + 'b) \<Rightarrow> 'a list \<Rightarrow> error + 'b list" where
  "for_each f [] = Inr []"
| "for_each f (x # xs) =
     (case f x of
        Inl e \<Rightarrow> Inl e
      | Inr y \<Rightarrow> (case for_each f xs of Inl e \<Rightarrow> Inl e | Inr ys \<Rightarrow> Inr (y # ys)))"

text \<open>\<^verbatim>\<open>d[key]\<close>.\<close>

definition getitem :: "pydict \<Rightarrow> string \<Rightarrow> error + pyval" where
  "getitem d key = (case map_of d key of None \<Rightarrow> Inl KeyError | Some v \<Rightarrow> Inr v)"

text \<open>Truth value of a Python value in a condition.\<close>

fun truthy :: "pyval \<Rightarrow> bool" where
  "truthy (PStr s) = (s \<noteq> [])"
| "truthy PNone = False"
| "truthy (PInt i) = (i \<noteq> 0)"
| "truthy (PList xs) = (xs \<noteq> [])"

text \<open>\<^verbatim>\<open>xs[:n]\<close>: a negative bound counts from the end.\<close>

definition slice_to :: "int \<Rightarrow> 'a list \<Rightarrow> 'a list" where
  "slice_to n xs = (if 0 \<le> n then take (nat n) xs else take (length xs - nat (- n)) xs)"

section \<open>The graph store\<close>

text \<open>
  The store is a collaborator. Each field answers one of the Cypher queries of the
  source with the rows that its \<^verbatim>\<open>MATCH\<close>, \<^verbatim>\<open>WHERE\<close>, \<^verbatim>\<open>RETURN\<close> and \<^verbatim>\<open>ORDER BY\<close> clauses
  select, in the order the store produces them, or with the exception that running the
  query raises. The \<^verbatim>\<open>LIMIT\<close> clause of a query is applied by the model.
\<close>

record store =
  mods_where_type_in :: "string list \<Rightarrow> error + pydict list"
  mods_match_all :: "error + pydict list"
  registers_by_category :: "string \<Rightarrow> error + pydict list"
  registers_match_all :: "error + pydict list"
  components_where_name_in :: "string list \<Rightarrow> error + pydict list"
  components_match_all :: "error + pydict list"
  knowledge_matching :: "string list \<Rightarrow> error + pydict list"

text \<open>\<^verbatim>\<open>LIMIT n\<close> on the rows of a query.\<close>

definition limit :: "nat \<Rightarrow> error + pydict list \<Rightarrow> error + pydict list" where
  "limit n r = (case r of Inl e \<Rightarrow> Inl e | Inr rows \<Rightarrow> Inr (take n rows))"

text \<open>
  The pipeline object: \<^verbatim>\<open>self.driver\<close> is \<^verbatim>\<open>None\<close> when no connection was established at
  construction.
\<close>

record pipeline =
  driver :: "store option"

definition is_available :: "pipeline \<Rightarrow> bool" where
  "is_available p = (driver p \<noteq> None)"

section \<open>CandidateRetriever\<close>

definition mod_types_of :: "string list \<Rightarrow> string list" where
  "mod_types_of keywords =
     (if ''magic'' \<in> set keywords \<or> ''infinite-magic'' \<in> set keywords then [''magic''] else []) @
     (if ''speed'' \<in> set keywords \<or> ''2x-speed'' \<in> set keywords \<or> ''double-speed'' \<in> set keywords
      then [''speed''] else []) @
     (if ''health'' \<in> set keywords \<or> ''hearts'' \<in> set keywords \<or> ''max-hearts'' \<in> set keywords
      then [''health''] else [])"

definition get_relevant_mods :: "pipeline \<Rightarrow> string list \<Rightarrow> error + pydict list" where
  "get_relevant_mods p keywords =
     (case driver p of
        None \<Rightarrow> Inr []
      | Some session \<Rightarrow>
          (let mod_types = mod_types_of keywords
           in if mod_types \<noteq> [] then mods_where_type_in session mod_types
              else limit 3 (mods_match_all session)))"

definition category_of :: "string list \<Rightarrow> string option" where
  "category_of keywords =
     (if ''ppu'' \<in> set keywords \<or> ''sprite'' \<in> set keywords \<or> ''background'' \<in> set keywords \<or>
         ''bgmode'' \<in> set keywords then Some ''ppu''
      else if ''cpu'' \<in> set keywords \<or> ''interrupt'' \<in> set keywords \<or> ''nmi'' \<in> set keywords \<or>
         ''irq'' \<in> set keywords then Some ''cpu''
      else if ''dma'' \<in> set keywords \<or> ''hdma'' \<in> set keywords then Some ''dma''
      else None)"

definition get_relevant_registers :: "pipeline \<Rightarrow> string list \<Rightarrow> error + pydict list" where
  "get_relevant_registers p keywords =
     (case driver p of
        None \<Rightarrow> Inr []
      | Some session \<Rightarrow>
          (case category_of keywords of
             Some category \<Rightarrow> limit 5 (registers_by_category session category)
           | None \<Rightarrow> limit 5 (registers_match_all session)))"

definition component_names_of :: "string list \<Rightarrow> string list" where
  "component_names_of keywords =
     (if ''player'' \<in> set keywords then [''player''] else []) @
     (if ''sprite'' \<in> set keywords \<or> ''sprite_system'' \<in> set keywords then [''sprite_system''] else []) @
     (if ''dungeon'' \<in> set keywords \<or> ''dungeon_system'' \<in> set keywords then [''dungeon_system'']
      else [])"

definition get_relevant_components :: "pipeline \<Rightarrow> string list \<Rightarrow> error + pydict list" where
  "get_relevant_components p keywords =
     (case driver p of
        None \<Rightarrow> Inr []
      | Some session \<Rightarrow>
          (let component_names = component_names_of keywords
           in if component_names \<noteq> [] then components_where_name_in session component_names
              else limit 3 (components_match_all session)))"

definition get_relevant_knowledge :: "pipeline \<Rightarrow> string list \<Rightarrow> error + pydict list" where
  "get_relevant_knowledge p keywords =
     (case driver p of
        None \<Rightarrow> Inr []
      | Some session \<Rightarrow> limit 3 (knowledge_matching session keywords))"

section \<open>RelevanceScorer and Reranker\<close>

text \<open>
  One step of building the searchable text: \<^verbatim>\<open>item[key].lower() + " "\<close> when the key is
  present. A value that is not a string has no \<^verbatim>\<open>lower\<close> and raises.
\<close>

definition text_part :: "pydict \<Rightarrow> string \<Rightarrow> error + string" where
  "text_part item key =
     (case map_of item key of
        None \<Rightarrow> Inr []
      | Some (PStr s) \<Rightarrow> Inr (lower s @ '' '')
      | Some _ \<Rightarrow> Inl AttributeError)"

definition searchable_text :: "pydict \<Rightarrow> error + string" where
  "searchable_text item =
     then_do (text_part item ''name'') (\<lambda>a.
     then_do (text_part item ''description'') (\<lambda>b.
     then_do (text_part item ''topic'') (\<lambda>c.
     then_do (text_part item ''content'') (\<lambda>d. Inr (a @ b @ c @ d)))))"

text \<open>Factor 3: the loop over the keywords, left at the first keyword that earns a bonus.\<close>

fun position_bonus :: "string \<Rightarrow> string list \<Rightarrow> int" where
  "position_bonus text [] = 0"
| "position_bonus text (kw # kws) =
     (case str_find text kw of
        None \<Rightarrow> position_bonus text kws
      | Some position \<Rightarrow>
          if position < 50 then 3
          else if position < 100 then 2
          else position_bonus text kws)"

text \<open>
  The score is a Python float that only ever takes small integer values, so it is an
  \<^typ>\<open>int\<close> here. \<open>keywords\<close> is the keyword set in iteration order.
\<close>

definition calculate_relevance_score :: "pydict \<Rightarrow> string \<Rightarrow> string list \<Rightarrow> error + int" where
  "calculate_relevance_score item query keywords =
     (let query_lower = lower query
      in then_do (searchable_text item) (\<lambda>text.
           (let matches = int (length (filter (\<lambda>kw. contains text kw) keywords))
            in Inr (min (matches * 2) 10
                    + (if contains text query_lower then 5 else 0)
                    + position_bonus text keywords
                    + (if length text > 100 then 2 else if length text > 50 then 1 else 0)))))"

text \<open>The scoring loop of \<^verbatim>\<open>rerank_results\<close>: items with a positive score, with their score.\<close>

fun scored_items :: "pydict list \<Rightarrow> string \<Rightarrow> string list \<Rightarrow> error + (int \<times> pydict) list" where
  "scored_items [] query keywords = Inr []"
| "scored_items (item # all_items) query keywords =
     (case calculate_relevance_score item query keywords of
        Inl e \<Rightarrow> Inl e
      | Inr score \<Rightarrow>
          (case scored_items all_items query keywords of
             Inl e \<Rightarrow> Inl e
           | Inr rest \<Rightarrow> Inr (if score > 0 then (score, item) # rest else rest)))"

text \<open>
  \<^verbatim>\<open>list.sort(key=lambda x: x[0], reverse=True)\<close>: Python's sort is stable, also with
  \<^verbatim>\<open>reverse=True\<close>, so entries of equal score keep their order.
\<close>

definition sort_by_score_desc :: "(int \<times> 'a) list \<Rightarrow> (int \<times> 'a) list" where
  "sort_by_score_desc xs = sort_key (\<lambda>x. - fst x) xs"

definition rerank_results ::
    "pydict list \<Rightarrow> string \<Rightarrow> string list \<Rightarrow> int \<Rightarrow> error + pydict list" where
  "rerank_results all_items query keywords max_items =
     then_do (scored_items all_items query keywords) (\<lambda>scored.
       Inr (map snd (slice_to max_items (sort_by_score_desc scored))))"

section \<open>Reference lookups\<close>

text \<open>The simulated instruction database of \<^verbatim>\<open>tools/mcp_client.py\<close>.\<close>

definition instructions :: "(string \<times> pydict) list" where
  "instructions =
     [(''LDA'',
       [(''mnemonic'', PStr ''LDA''),
        (''description'', PStr ''Load Accumulator from Memory''),
        (''modes'', PStr ''Immediate, Direct Page, Absolute, Indexed X/Y, Indirect, Long''),
        (''cycles'', PStr ''2-6 depending on mode and memory/accumulator size''),
        (''flags'', PStr ''N (Negative), Z (Zero)''),
        (''notes'', PStr ''One of the most commonly used instructions. Loads a value into the accumulator.'')]),
      (''STA'',
       [(''mnemonic'', PStr ''STA''),
        (''description'', PStr ''Store Accumulator to Memory''),
        (''modes'', PStr ''Direct Page, Absolute, Indexed X/Y, Indirect, Long''),
        (''cycles'', PStr ''3-6 depending on mode''),
        (''flags'', PStr ''None''),
        (''notes'', PStr ''Stores the accumulator value to memory. Does not affect any flags.'')]),
      (''JSR'',
       [(''mnemonic'', PStr ''JSR''),
        (''description'', PStr ''Jump to Subroutine''),
        (''modes'', PStr ''Absolute, Indexed X''),
        (''cycles'', PStr ''6''),
        (''flags'', PStr ''None''),
        (''notes'', PStr ''Pushes return address-1 to stack and jumps to subroutine.'')]),
      (''JMP'',
       [(''mnemonic'', PStr ''JMP''),
        (''description'', PStr ''Jump to Address''),
        (''modes'', PStr ''Absolute, Indirect, Indexed Indirect, Absolute Long''),
        (''cycles'', PStr ''3-6 depending on mode''),
        (''flags'', PStr ''None''),
        (''notes'', PStr ''Unconditional jump. Does not push return address to stack.'')]),
      (''BEQ'',
       [(''mnemonic'', PStr ''BEQ''),
        (''description'', PStr ''Branch if Equal (Zero flag set)''),
        (''modes'', PStr ''Relative''),
        (''cycles'', PStr ''2 (3 if branch taken, +1 if crossing page boundary)''),
        (''flags'', PStr ''None''),
        (''notes'', PStr ''Branches if Z flag is set. Range: -128 to +127 bytes.'')]),
      (''BNE'',
       [(''mnemonic'', PStr ''BNE''),
        (''description'', PStr ''Branch if Not Equal (Zero flag clear)''),
        (''modes'', PStr ''Relative''),
        (''cycles'', PStr ''2 (3 if branch taken, +1 if crossing page boundary)''),
        (''flags'', PStr ''None''),
        (''notes'', PStr ''Branches if Z flag is clear. Range: -128 to +127 bytes.'')]),
      (''CMP'',
       [(''mnemonic'', PStr ''CMP''),
        (''description'', PStr ''Compare Accumulator with Memory''),
        (''modes'', PStr ''Immediate, Direct Page, Absolute, Indexed, Indirect''),
        (''cycles'', PStr ''2-6 depending on mode''),
        (''flags'', PStr ''N (Negative), Z (Zero), C (Carry)''),
        (''notes'', PStr ''Subtracts memory from accumulator and sets flags, but does not store result.'')]),
      (''INC'',
       [(''mnemonic'', PStr ''INC''),
        (''description'', PStr ''Increment Memory or Accumulator''),
        (''modes'', PStr ''Accumulator, Direct Page, Absolute, Indexed X''),
        (''cycles'', PStr ''2-8 depending on mode''),
        (''flags'', PStr ''N (Negative), Z (Zero)''),
        (''notes'', PStr ''Increments value by 1. Sets N and Z flags based on result.'')]),
      (''DEC'',
       [(''mnemonic'', PStr ''DEC''),
        (''description'', PStr ''Decrement Memory or Accumulator''),
        (''modes'', PStr ''Accumulator, Direct Page, Absolute, Indexed X''),
        (''cycles'', PStr ''2-8 depending on mode''),
        (''flags'', PStr ''N (Negative), Z (Zero)''),
        (''notes'', PStr ''Decrements value by 1. Sets N and Z flags based on result.'')]),
      (''AND'',
       [(''mnemonic'', PStr ''AND''),
        (''description'', PStr ''Logical AND Accumulator with Memory''),
        (''modes'', PStr ''Immediate, Direct Page, Absolute, Indexed, Indirect''),
        (''cycles'', PStr ''2-6 depending on mode''),
        (''flags'', PStr ''N (Negative), Z (Zero)''),
        (''notes'', PStr ''Performs bitwise AND operation between accumulator and memory.'')]),
      (''ORA'',
       [(''mnemonic'', PStr ''ORA''),
        (''description'', PStr ''Logical OR Accumulator with Memory''),
        (''modes'', PStr ''Immediate, Direct Page, Absolute, Indexed, Indirect''),
        (''cycles'', PStr ''2-6 depending on mode''),
        (''flags'', PStr ''N (Negative), Z (Zero)''),
        (''notes'', PStr ''Performs bitwise OR operation between accumulator and memory.'')]),
      (''REP'',
       [(''mnemonic'', PStr ''REP''),
        (''description'', PStr ''Reset Processor Status Bits''),
        (''modes'', PStr ''Immediate''),
        (''cycles'', PStr ''3''),
        (''flags'', PStr ''Can affect any flag based on immediate value''),
        (''notes'', PStr ''65816-specific. Clears bits in status register. Common: REP #$20 (16-bit A), REP #$30 (16-bit A+X/Y).'')]),
      (''SEP'',
       [(''mnemonic'', PStr ''SEP''),
        (''description'', PStr ''Set Processor Status Bits''),
        (''modes'', PStr ''Immediate''),
        (''cycles'', PStr ''3''),
        (''flags'', PStr ''Can affect any flag based on immediate value''),
        (''notes'', PStr ''65816-specific. Sets bits in status register. Common: SEP #$20 (8-bit A), SEP #$30 (8-bit A+X/Y).'')])]"

definition snes_lookup_instruction :: "string \<Rightarrow> pydict option" where
  "snes_lookup_instruction mnemonic =
     (if mnemonic = [] then None else map_of instructions (upper mnemonic))"

definition ppu_registers :: "(nat \<times> pydict) list" where
  "ppu_registers =
     [(0x2100,
       [(''name'', PStr ''INIDISP''),
        (''description'', PStr ''Screen Display Register - Controls brightness and forced blank''),
        (''category'', PStr ''ppu''),
        (''access'', PStr ''Write'')]),
      (0x2101,
       [(''name'', PStr ''OBJSEL''),
        (''description'', PStr ''Object Size and Character Size Register''),
        (''category'', PStr ''ppu''),
        (''access'', PStr ''Write'')]),
      (0x2102,
       [(''name'', PStr ''OAMADDL''),
        (''description'', PStr ''OAM Address Register (low byte)''),
        (''category'', PStr ''ppu''),
        (''access'', PStr ''Write'')]),
      (0x2103,
       [(''name'', PStr ''OAMADDH''),
        (''description'', PStr ''OAM Address Register (high byte)''),
        (''category'', PStr ''ppu''),
        (''access'', PStr ''Write'')]),
      (0x2104,
       [(''name'', PStr ''OAMDATA''),
        (''description'', PStr ''OAM Data Write Register''),
        (''category'', PStr ''ppu''),
        (''access'', PStr ''Write'')]),
      (0x2105,
       [(''name'', PStr ''BGMODE''),
        (''description'', PStr ''BG Mode and Character Size Register''),
        (''category'', PStr ''ppu''),
        (''access'', PStr ''Write'')]),
      (0x2106,
       [(''name'', PStr ''MOSAIC''),
        (''description'', PStr ''Mosaic Register''),
        (''category'', PStr ''ppu''),
        (''access'', PStr ''Write'')]),
      (0x2107,
       [(''name'', PStr ''BG1SC''),
        (''description'', PStr ''BG1 Screen Base and Size''),
        (''category'', PStr ''ppu''),
        (''access'', PStr ''Write'')])]"

definition cpu_registers :: "(nat \<times> pydict) list" where
  "cpu_registers =
     [(0x4200,
       [(''name'', PStr ''NMITIMEN''),
        (''description'', PStr ''Interrupt Enable Flags - Controls NMI, IRQ, and auto-joypad''),
        (''category'', PStr ''cpu'')]),
      (0x4201,
       [(''name'', PStr ''WRIO''),
        (''description'', PStr ''I/O Port Write Register''),
        (''category'', PStr ''cpu'')]),
      (0x4202,
       [(''name'', PStr ''WRMPYA''),
        (''description'', PStr ''Multiplicand A (8-bit)''),
        (''category'', PStr ''cpu'')]),
      (0x4203,
       [(''name'', PStr ''WRMPYB''),
        (''description'', PStr ''Multiplicand B (8-bit)''),
        (''category'', PStr ''cpu'')]),
      (0x4204,
       [(''name'', PStr ''WRDIVL''),
        (''description'', PStr ''Dividend (low byte)''),
        (''category'', PStr ''cpu'')]),
      (0x4205,
       [(''name'', PStr ''WRDIVH''),
        (''description'', PStr ''Dividend (high byte)''),
        (''category'', PStr ''cpu'')]),
      (0x4206,
       [(''name'', PStr ''WRDIVB''),
        (''description'', PStr ''Divisor (8-bit)''),
        (''category'', PStr ''cpu'')])]"

definition is_hex_digit :: "char \<Rightarrow> bool" where
  "is_hex_digit c =
     (let n = (of_char c :: nat)
      in (48 \<le> n \<and> n \<le> 57) \<or> (65 \<le> n \<and> n \<le> 70) \<or> (97 \<le> n \<and> n \<le> 102))"

definition hex_digit_value :: "char \<Rightarrow> nat" where
  "hex_digit_value c =
     (let n = (of_char c :: nat)
      in if n \<le> 57 then n - 48 else if n \<le> 70 then n - 55 else n - 87)"

text \<open>
  \<^verbatim>\<open>int(s, 16)\<close> on a string of hexadecimal digits; any other string raises here.
  (Python also accepts a sign, surrounding blanks and single underscores between digits;
  the address detector, the only caller in the pipeline, passes none of these.)
\<close>

definition int16 :: "string \<Rightarrow> error + nat" where
  "int16 s =
     (if s \<noteq> [] \<and> list_all is_hex_digit s
      then Inr (foldl (\<lambda>a c. 16 * a + hex_digit_value c) 0 s)
      else Inl ValueError)"

text \<open>The branches of \<^verbatim>\<open>snes_memory_map\<close> after the address has been parsed.\<close>

definition memory_region :: "string \<Rightarrow> nat \<Rightarrow> error + pydict" where
  "memory_region addr addr_val =
     (if 0x2100 \<le> addr_val \<and> addr_val \<le> 0x21FF then
        (case map_of ppu_registers addr_val of
           Some reg \<Rightarrow>
             then_do (getitem reg ''name'') (\<lambda>name.
             then_do (getitem reg ''description'') (\<lambda>description.
             then_do (getitem reg ''category'') (\<lambda>category.
             then_do (getitem reg ''access'') (\<lambda>access.
               Inr [(''address'', PStr (CHR ''$'' # addr)),
                    (''name'', name),
                    (''description'', description),
                    (''region'', PStr ''Hardware Registers''),
                    (''type'', PStr ''I/O''),
                    (''category'', category),
                    (''access'', access)]))))
         | None \<Rightarrow>
             Inr [(''address'', PStr (CHR ''$'' # addr)),
                  (''region'', PStr ''PPU Registers''),
                  (''type'', PStr ''I/O''),
                  (''description'', PStr ''Picture Processing Unit hardware registers''),
                  (''access'', PStr ''Read/Write (varies by register)'')])
      else if 0x4200 \<le> addr_val \<and> addr_val \<le> 0x44FF then
        (case map_of cpu_registers addr_val of
           Some reg \<Rightarrow>
             then_do (getitem reg ''name'') (\<lambda>name.
             then_do (getitem reg ''description'') (\<lambda>description.
             then_do (getitem reg ''category'') (\<lambda>category.
               Inr [(''address'', PStr (CHR ''$'' # addr)),
                    (''name'', name),
                    (''description'', description),
                    (''region'', PStr ''Hardware Registers''),
                    (''type'', PStr ''I/O''),
                    (''category'', category),
                    (''access'', PStr ''Write'')])))
         | None \<Rightarrow>
             Inr [(''address'', PStr (CHR ''$'' # addr)),
                  (''region'', PStr ''CPU/DMA Registers''),
                  (''type'', PStr ''I/O''),
                  (''description'', PStr ''CPU control and DMA hardware registers''),
                  (''access'', PStr ''Read/Write (varies by register)'')])
      else if length addr = 6 \<and> take 2 addr = ''7E'' then
        Inr [(''address'', PStr (CHR ''$'' # addr)),
             (''region'', PStr ''WRAM (Work RAM)''),
             (''type'', PStr ''RAM''),
             (''description'', PStr ''General purpose work RAM. Zelda 3 stores game state, player data, and temporary variables here.''),
             (''access'', PStr ''Read/Write''),
             (''size'', PStr ''128 KB total (banks $7E-$7F)'')]
      else if length addr = 6 \<and> take 2 addr = ''7F'' then
        Inr [(''address'', PStr (CHR ''$'' # addr)),
             (''region'', PStr ''WRAM (Work RAM)''),
             (''type'', PStr ''RAM''),
             (''description'', PStr ''Extended work RAM (second 64KB of WRAM)''),
             (''access'', PStr ''Read/Write''),
             (''size'', PStr ''128 KB total (banks $7E-$7F)'')]
      else if length addr = 6 \<and>
              take 2 addr \<in> set [''80'', ''81'', ''82'', ''83'', ''84'', ''85'', ''86'', ''87'',
                                  ''88'', ''89'', ''8A'', ''8B'', ''8C'', ''8D'', ''8E'', ''8F''] then
        Inr [(''address'', PStr (CHR ''$'' # addr)),
             (''region'', PStr ''ROM (LoROM mapping)''),
             (''type'', PStr ''ROM''),
             (''description'', PStr ''Game code and data in ROM. Read-only.''),
             (''access'', PStr ''Read-only''),
             (''note'', PStr ''Banks $80-$FF mirror $00-$7F with ROM mapped'')]
      else
        Inr [(''address'', PStr (CHR ''$'' # addr)),
             (''region'', PStr ''Unknown''),
             (''type'', PStr ''Unknown''),
             (''description'', PStr ''Memory region not identified''),
             (''access'', PStr ''Unknown'')])"

text \<open>\<^verbatim>\<open>snes_memory_map(address=...)\<close>; \<^verbatim>\<open>None\<close> is the lookup that resolves to nothing.\<close>

definition snes_memory_map :: "string \<Rightarrow> error + pydict option" where
  "snes_memory_map address =
     (if address = [] then Inr None
      else
        (let addr = upper (replace (replace address ''$'' []) ''0x'' [])
         in if length addr = 4 then
              then_do (int16 addr) (\<lambda>addr_val.
                map_sum id Some (memory_region addr addr_val))
            else if length addr = 6 then
              then_do (int16 (drop 2 addr)) (\<lambda>addr_val.
              then_do (int16 (take 2 addr)) (\<lambda>bank_val.
                map_sum id Some (memory_region addr addr_val)))
            else Inr None))"

section \<open>PatternEnricher\<close>

text \<open>
  The module flag \<^verbatim>\<open>MCP_AVAILABLE\<close> (whether the lookup module could be imported) and
  the iteration order of string sets are fixed for a running process.
\<close>

record runtime =
  mcp_available :: bool
  str_rank :: "string \<Rightarrow> nat"

text \<open>The class \<^verbatim>\<open>\w\<close> and the assertion \<^verbatim>\<open>\b\<close> between two neighbouring characters.\<close>

definition is_word_char :: "char \<Rightarrow> bool" where
  "is_word_char c =
     (let n = (of_char c :: nat)
      in (48 \<le> n \<and> n \<le> 57) \<or> (65 \<le> n \<and> n \<le> 90) \<or> (97 \<le> n \<and> n \<le> 122) \<or> n = 95)"

definition peek :: "string \<Rightarrow> char option" where
  "peek s = (case s of [] \<Rightarrow> None | c # cs \<Rightarrow> Some c)"

definition word_boundary :: "char option \<Rightarrow> char option \<Rightarrow> bool" where
  "word_boundary prev nxt =
     ((case prev of None \<Rightarrow> False | Some c \<Rightarrow> is_word_char c) \<noteq>
      (case nxt of None \<Rightarrow> False | Some c \<Rightarrow> is_word_char c))"

definition instruction_mnemonics :: "string list" where
  "instruction_mnemonics =
     [''LDA'', ''STA'', ''LDX'', ''STX'', ''LDY'', ''STY'', ''JSR'', ''JSL'', ''JMP'', ''JML'',
      ''BEQ'', ''BNE'', ''BCC'', ''BCS'', ''BMI'', ''BPL'', ''BVC'', ''BVS'', ''BRA'', ''BRL'',
      ''ADC'', ''SBC'', ''AND'', ''ORA'', ''EOR'', ''CMP'', ''CPX'', ''CPY'',
      ''INC'', ''DEC'', ''INX'', ''DEX'', ''INY'', ''DEY'',
      ''ASL'', ''LSR'', ''ROL'', ''ROR'',
      ''PHP'', ''PLP'', ''PHA'', ''PLA'', ''PHX'', ''PLX'', ''PHY'', ''PLY'', ''PHB'', ''PLB'',
      ''PHD'', ''PLD'', ''PHK'',
      ''RTI'', ''RTS'', ''RTL'',
      ''SEI'', ''CLI'', ''SEC'', ''CLC'', ''SED'', ''CLD'', ''SEP'', ''REP'', ''XCE'',
      ''NOP'', ''WDM'', ''COP'', ''BRK'', ''WAI'', ''STP'',
      ''TXA'', ''TAX'', ''TYA'', ''TAY'', ''TXS'', ''TSX'', ''TXY'', ''TYX'', ''TCD'', ''TDC'',
      ''TCS'', ''TSC'', ''XBA'']"

text \<open>
  A match of \<^verbatim>\<open>\b(LDA|STA|...)\b\<close> that starts at the head of \<open>s\<close>, the character
  before it being \<open>prev\<close>: the first alternative for which the rest also matches.
\<close>

definition match_instruction_at :: "char option \<Rightarrow> string \<Rightarrow> string option" where
  "match_instruction_at prev s =
     (if word_boundary prev (peek s)
      then List.find
             (\<lambda>m. startswith s m \<and> word_boundary (Some (last m)) (peek (drop (length m) s)))
             instruction_mnemonics
      else None)"

text \<open>\<^verbatim>\<open>re.findall\<close> for the instruction pattern: the matches from left to right, without overlap.\<close>

fun findall_instructions :: "char option \<Rightarrow> string \<Rightarrow> string list" where
  "findall_instructions prev [] = []"
| "findall_instructions prev (c # cs) =
     (case match_instruction_at prev (c # cs) of
        Some m \<Rightarrow> m # findall_instructions (Some (last m)) (drop (length m - 1) cs)
      | None \<Rightarrow> findall_instructions (Some c) cs)"

text \<open>
  A match of \<^verbatim>\<open>\$([0-9A-Fa-f]{4,6})\b\<close> that starts at the head of \<open>s\<close>; the result is
  the group. The quantifier is greedy: six digits are tried first, then five, then four.
\<close>

definition match_address_at :: "string \<Rightarrow> string option" where
  "match_address_at s =
     (case s of
        [] \<Rightarrow> None
      | c # rest \<Rightarrow>
          if c \<noteq> CHR ''$'' then None
          else map_option (\<lambda>n. take n rest)
                 (List.find
                    (\<lambda>n. n \<le> length rest \<and> list_all is_hex_digit (take n rest) \<and>
                         word_boundary (Some (last (take n rest))) (peek (drop n rest)))
                    [6, 5, 4]))"

fun findall_addresses :: "string \<Rightarrow> string list" where
  "findall_addresses [] = []"
| "findall_addresses (c # cs) =
     (case match_address_at (c # cs) of
        Some g \<Rightarrow> g # findall_addresses (drop (length g) cs)
      | None \<Rightarrow> findall_addresses cs)"

definition detect_and_explain_instructions :: "runtime \<Rightarrow> string \<Rightarrow> pydict list" where
  "detect_and_explain_instructions rt user_prompt =
     (if \<not> mcp_available rt then []
      else
        (let instructions = findall_instructions None (upper user_prompt)
         in if instructions = [] then []
            else
              (let unique_instructions = take 5 (set_iter (str_rank rt) instructions)
               in List.map_filter
                    (\<lambda>instr. case snes_lookup_instruction instr of
                                None \<Rightarrow> None
                              | Some help_info \<Rightarrow> if help_info \<noteq> [] then Some help_info else None)
                    unique_instructions)))"

text \<open>The lookup loop of \<^verbatim>\<open>detect_and_explain_addresses\<close>.\<close>

fun lookup_addresses :: "string list \<Rightarrow> error + pydict list" where
  "lookup_addresses [] = Inr []"
| "lookup_addresses (addr # unique_addresses) =
     (case snes_memory_map (CHR ''$'' # addr) of
        Inl e \<Rightarrow> Inl e
      | Inr info \<Rightarrow>
          (case lookup_addresses unique_addresses of
             Inl e \<Rightarrow> Inl e
           | Inr address_info \<Rightarrow>
               Inr (case info of
                      None \<Rightarrow> address_info
                    | Some d \<Rightarrow> if d \<noteq> [] then d # address_info else address_info)))"

definition detect_and_explain_addresses :: "runtime \<Rightarrow> string \<Rightarrow> error + pydict list" where
  "detect_and_explain_addresses rt user_prompt =
     (if \<not> mcp_available rt then Inr []
      else
        (let addresses = findall_addresses user_prompt
         in if addresses = [] then Inr []
            else lookup_addresses (take 10 (set_iter (str_rank rt) addresses))))"

section \<open>ContextAssembler\<close>

definition nl :: string where
  "nl = [CHR 0x0A]"

text \<open>\<^verbatim>\<open>str(n)\<close> for an integer.\<close>

fun str_nat :: "nat \<Rightarrow> string" where
  "str_nat n = (if n < 10 then [char_of (48 + n)] else str_nat (n div 10) @ [char_of (48 + n mod 10)])"

definition str_int :: "int \<Rightarrow> string" where
  "str_int i = (if i < 0 then CHR ''-'' # str_nat (nat (- i)) else str_nat (nat i))"

text \<open>\<^verbatim>\<open>repr(s)\<close> for a string, as it appears when a list of strings is printed.\<close>

definition hex_lower_digit :: "nat \<Rightarrow> char" where
  "hex_lower_digit n = (if n < 10 then char_of (48 + n) else char_of (87 + n))"

definition repr_char :: "char \<Rightarrow> char \<Rightarrow> string" where
  "repr_char quote c =
     (let n = (of_char c :: nat)
      in if n = 0x5C then [CHR 0x5C, CHR 0x5C]
         else if c = quote then [CHR 0x5C, c]
         else if n = 0x09 then [CHR 0x5C, CHR ''t'']
         else if n = 0x0A then [CHR 0x5C, CHR ''n'']
         else if n = 0x0D then [CHR 0x5C, CHR ''r'']
         else if n < 0x20 \<or> n = 0x7F
           then [CHR 0x5C, CHR ''x'', hex_lower_digit (n div 16), hex_lower_digit (n mod 16)]
         else [c])"

definition repr_str :: "string \<Rightarrow> string" where
  "repr_str s =
     (let quote = (if CHR 0x27 \<in> set s \<and> CHR 0x22 \<notin> set s then CHR 0x22 else CHR 0x27)
      in quote # concat (map (repr_char quote) s) @ [quote])"

text \<open>A value inside an f-string: \<^verbatim>\<open>str(v)\<close>.\<close>

fun py_str :: "pyval \<Rightarrow> string" where
  "py_str (PStr s) = s"
| "py_str PNone = ''None''"
| "py_str (PInt i) = str_int i"
| "py_str (PList xs) = ''['' @ join '', '' (map repr_str xs) @ '']''"

text \<open>\<^verbatim>\<open>len(v)\<close>.\<close>

fun py_len :: "pyval \<Rightarrow> error + nat" where
  "py_len (PStr s) = Inr (length s)"
| "py_len (PList xs) = Inr (length xs)"
| "py_len PNone = Inl TypeError"
| "py_len (PInt i) = Inl TypeError"

text \<open>\<^verbatim>\<open>sep.join(v)\<close>: a string is joined character by character.\<close>

fun join_value :: "string \<Rightarrow> pyval \<Rightarrow> error + string" where
  "join_value sep (PList xs) = Inr (join sep xs)"
| "join_value sep (PStr s) = Inr (join sep (map (\<lambda>c. [c]) s))"
| "join_value sep PNone = Inl TypeError"
| "join_value sep (PInt i) = Inl TypeError"

text \<open>\<^verbatim>\<open>[item for item in ranked_items if item['_type'] == t]\<close>.\<close>

fun of_type :: "string \<Rightarrow> pydict list \<Rightarrow> error + pydict list" where
  "of_type t [] = Inr []"
| "of_type t (item # ranked_items) =
     (case getitem item ''_type'' of
        Inl e \<Rightarrow> Inl e
      | Inr v \<Rightarrow>
          (case of_type t ranked_items of
             Inl e \<Rightarrow> Inl e
           | Inr rest \<Rightarrow> Inr (if v = PStr t then item # rest else rest)))"

definition format_mod :: "pydict \<Rightarrow> error + string" where
  "format_mod m =
     then_do (getitem m ''components'') (\<lambda>c.
     then_do (if truthy c then join_value '', '' c else Inr ''N/A'') (\<lambda>components_str.
     then_do (getitem m ''name'') (\<lambda>name.
     then_do (getitem m ''type'') (\<lambda>ty.
     then_do (getitem m ''description'') (\<lambda>description.
     then_do (getitem m ''bytes'') (\<lambda>bytes.
       Inr (''  - **'' @ py_str name @ ''** ('' @ py_str ty @ ''): '' @ py_str description @ nl @
            ''    Affects: '' @ components_str @ '' | Bytes changed: '' @ py_str bytes)))))))"

definition format_register :: "pydict \<Rightarrow> error + string" where
  "format_register reg =
     then_do (getitem reg ''address'') (\<lambda>address.
     then_do (getitem reg ''name'') (\<lambda>name.
     then_do (getitem reg ''description'') (\<lambda>description.
       Inr (''  - **'' @ py_str address @ '' ('' @ py_str name @ '')**: '' @ py_str description))))"

definition format_component :: "pydict \<Rightarrow> error + string" where
  "format_component component =
     then_do (getitem component ''name'') (\<lambda>name.
     then_do (getitem component ''type'') (\<lambda>ty.
     then_do (getitem component ''description'') (\<lambda>description.
       Inr (''  - **'' @ py_str name @ ''** ('' @ py_str ty @ ''): '' @ py_str description))))"

text \<open>
  \<^verbatim>\<open>k['content'][:200] + "..." if len(k['content']) > 200 else k['content']\<close>, then the
  line of the item.
\<close>

definition format_knowledge :: "pydict \<Rightarrow> error + string" where
  "format_knowledge k =
     then_do (getitem k ''content'') (\<lambda>c.
     then_do (py_len c) (\<lambda>n.
     then_do (if n > 200
              then (case c of PStr s \<Rightarrow> Inr (take 200 s @ ''...'') | _ \<Rightarrow> Inl TypeError)
              else Inr (py_str c)) (\<lambda>content.
     then_do (getitem k ''topic'') (\<lambda>topic.
       Inr (''  - **'' @ py_str topic @ ''**: '' @ content)))))"

text \<open>One family's section: nothing when the family is empty, else a header and one line per item, at most \<open>cap\<close> items.\<close>

definition section_of ::
    "string \<Rightarrow> nat \<Rightarrow> (pydict \<Rightarrow> error + string) \<Rightarrow> pydict list \<Rightarrow> error + string list" where
  "section_of header cap fmt items =
     (if items \<noteq> [] then then_do (for_each fmt (take cap items)) (\<lambda>ls. Inr (header # ls))
      else Inr [])"

definition mods_header :: string where
  "mods_header = [CHR 0xF0, CHR 0x9F, CHR 0x8E, CHR 0xAE] @ '' **Relevant Mods:**''"

definition registers_header :: string where
  "registers_header = nl @ [CHR 0xF0, CHR 0x9F, CHR 0x94, CHR 0xA7] @ '' **Relevant SNES Registers:**''"

definition components_header :: string where
  "components_header = nl @ [CHR 0xF0, CHR 0x9F, CHR 0x93, CHR 0xA6] @ '' **Relevant Components:**''"

definition knowledge_header :: string where
  "knowledge_header = nl @ [CHR 0xF0, CHR 0x9F, CHR 0x93, CHR 0x9A] @ '' **Domain Knowledge:**''"

definition instructions_header :: string where
  "instructions_header = nl @ [CHR 0xF0, CHR 0x9F, CHR 0x94, CHR 0xA7] @ '' **Detected 65816 Instructions:**''"

definition addresses_header :: string where
  "addresses_header = nl @ [CHR 0xF0, CHR 0x9F, CHR 0x93, CHR 0x8D] @ '' **Memory Addresses Referenced:**''"

definition context_header :: string where
  "context_header =
     [CHR 0xF0, CHR 0x9F, CHR 0xA7, CHR 0xA0] @ '' **Enhanced Knowledge Context** (Neo4j + MCP Servers):''"

definition format_instruction :: "pydict \<Rightarrow> error + string list" where
  "format_instruction instr =
     then_do (getitem instr ''mnemonic'') (\<lambda>mnemonic.
     then_do (getitem instr ''description'') (\<lambda>description.
     then_do (getitem instr ''modes'') (\<lambda>modes.
     then_do (getitem instr ''cycles'') (\<lambda>cycles.
     then_do (getitem instr ''flags'') (\<lambda>flags.
     then_do (case map_of instr ''notes'' of
                None \<Rightarrow> Inr []
              | Some v \<Rightarrow>
                  if truthy v then then_do (getitem instr ''notes'') (\<lambda>notes. Inr [''  - Notes: '' @ py_str notes])
                  else Inr []) (\<lambda>notes_part.
       Inr ([nl @ ''**'' @ py_str mnemonic @ ''**: '' @ py_str description,
             ''  - Modes: '' @ py_str modes,
             ''  - Cycles: '' @ py_str cycles,
             ''  - Flags: '' @ py_str flags] @ notes_part)))))))"

definition format_address :: "pydict \<Rightarrow> error + string list" where
  "format_address addr =
     (if (case map_of addr ''name'' of None \<Rightarrow> False | Some v \<Rightarrow> truthy v) then
        then_do (getitem addr ''address'') (\<lambda>address.
        then_do (getitem addr ''name'') (\<lambda>name.
        then_do (getitem addr ''description'') (\<lambda>description.
        then_do (getitem addr ''type'') (\<lambda>ty.
        then_do (getitem addr ''access'') (\<lambda>access.
          Inr [nl @ ''**'' @ py_str address @ ''** - '' @ py_str name,
               ''  '' @ py_str description,
               ''  Type: '' @ py_str ty @ '', Access: '' @ py_str access])))))
      else
        then_do (getitem addr ''address'') (\<lambda>address.
        then_do (getitem addr ''region'') (\<lambda>region.
        then_do (getitem addr ''description'') (\<lambda>description.
        then_do (getitem addr ''type'') (\<lambda>ty.
        then_do (getitem addr ''access'') (\<lambda>access.
          Inr [nl @ ''**'' @ py_str address @ ''** - '' @ py_str region,
               ''  '' @ py_str description,
               ''  Type: '' @ py_str ty @ '', Access: '' @ py_str access]))))))"

text \<open>The two enrichment sections, built only when \<^verbatim>\<open>MCP_AVAILABLE\<close> holds.\<close>

definition enrichment_parts :: "runtime \<Rightarrow> string \<Rightarrow> error + string list" where
  "enrichment_parts rt query =
     (if mcp_available rt then
        (let instruction_help = detect_and_explain_instructions rt query
         in then_do (if instruction_help \<noteq> []
                     then then_do (for_each format_instruction instruction_help) (\<lambda>ls.
                            Inr (instructions_header # concat ls))
                     else Inr []) (\<lambda>instruction_parts.
            then_do (detect_and_explain_addresses rt query) (\<lambda>address_info.
            then_do (if address_info \<noteq> []
                     then then_do (for_each format_address address_info) (\<lambda>ls.
                            Inr (addresses_header # concat ls))
                     else Inr []) (\<lambda>address_parts.
              Inr (instruction_parts @ address_parts)))))
      else Inr [])"

definition footer_of :: "runtime \<Rightarrow> string \<Rightarrow> nat \<Rightarrow> error + string" where
  "footer_of rt query enrichment_count =
     (let plain = nl @ ''_Retrieved and reranked '' @ str_nat enrichment_count @
                  '' most relevant items from knowledge graph_''
      in if mcp_available rt then
           (let instruction_count = length (detect_and_explain_instructions rt query)
            in then_do (detect_and_explain_addresses rt query) (\<lambda>address_info.
                 (let address_count = length address_info
                  in if instruction_count > 0 \<or> address_count > 0
                     then Inr (nl @ ''_Retrieved '' @ str_nat enrichment_count @ '' items from Neo4j + '' @
                               str_nat (instruction_count + address_count) @ '' MCP enrichments_'')
                     else Inr plain)))
         else Inr plain)"

text \<open>The part of \<^verbatim>\<open>build_context\<close> after reranking: grouping, formatting, enrichment, footer.\<close>

definition assemble_context :: "runtime \<Rightarrow> string \<Rightarrow> pydict list \<Rightarrow> error + string" where
  "assemble_context rt query ranked_items =
     then_do (of_type ''mod'' ranked_items) (\<lambda>mods.
     then_do (of_type ''register'' ranked_items) (\<lambda>registers.
     then_do (of_type ''component'' ranked_items) (\<lambda>components.
     then_do (of_type ''knowledge'' ranked_items) (\<lambda>knowledge.
     then_do (section_of mods_header 3 format_mod mods) (\<lambda>mod_parts.
     then_do (section_of registers_header 5 format_register registers) (\<lambda>register_parts.
     then_do (section_of components_header 3 format_component components) (\<lambda>component_parts.
     then_do (section_of knowledge_header 2 format_knowledge knowledge) (\<lambda>knowledge_parts.
     then_do (enrichment_parts rt query) (\<lambda>enrichments.
       (let context_parts = mod_parts @ register_parts @ component_parts @ knowledge_parts @ enrichments
        in if context_parts = [] then Inr []
           else then_do (footer_of rt query (length ranked_items)) (\<lambda>footer.
                  Inr (join nl ([context_header] @ context_parts @ [footer])))))))))))))"

text \<open>\<^verbatim>\<open>item['_type'] = t\<close> on every record of a family.\<close>

definition tagged :: "string \<Rightarrow> pydict list \<Rightarrow> pydict list" where
  "tagged t rows = map (AList.update ''_type'' (PStr t)) rows"

definition build_context :: "runtime \<Rightarrow> pipeline \<Rightarrow> string \<Rightarrow> int \<Rightarrow> error + string" where
  "build_context rt p query max_items =
     (if \<not> is_available p then Inr []
      else
        (let keywords = extract_keywords (str_rank rt) query
         in if keywords = [] then Inr []
            else
              then_do (get_relevant_mods p keywords) (\<lambda>mods.
              then_do (get_relevant_registers p keywords) (\<lambda>registers.
              then_do (get_relevant_components p keywords) (\<lambda>components.
              then_do (get_relevant_knowledge p keywords) (\<lambda>knowledge.
                (let all_items = tagged ''mod'' mods @ tagged ''register'' registers @
                                 tagged ''component'' components @ tagged ''knowledge'' knowledge
                 in if all_items = [] then Inr []
                    else
                      then_do (rerank_results all_items query keywords max_items) (\<lambda>ranked_items.
                        if ranked_items = [] then Inr []
                        else assemble_context rt query ranked_items))))))))"

text \<open>
  \<^verbatim>\<open>get_rag_context\<close>, the entry point for hooks, for the pipeline object it has
  constructed: every exception is caught and turned into \<^verbatim>\<open>None\<close>. Closing the
  connection after the call is taken to succeed.
\<close>

definition get_rag_context :: "runtime \<Rightarrow> pipeline \<Rightarrow> string \<Rightarrow> string option" where
  "get_rag_context rt p query =
     (if \<not> is_available p then None
      else
        (case build_context rt p query 10 of
           Inl e \<Rightarrow> None
         | Inr context \<Rightarrow> if context \<noteq> [] then Some context else None))"

section \<open>Notions used in the statements\<close>

text \<open>
  An item can be scored when each of the four text fields that it has holds a string.
\<close>

definition text_fields_ok :: "pydict \<Rightarrow> bool" where
  "text_fields_ok item =
     list_all (\<lambda>key. case map_of item key of None \<Rightarrow> True | Some (PStr s) \<Rightarrow> True | Some _ \<Rightarrow> False)
       [''name'', ''description'', ''topic'', ''content'']"

text \<open>
  The text is ASCII, the range on which \<^const>\<open>lower\<close>, \<^const>\<open>upper\<close> and
  \<^const>\<open>is_word_char\<close> are what Python computes.
\<close>

definition is_ascii :: "string \<Rightarrow> bool" where
  "is_ascii s = list_all (\<lambda>c. (of_char c :: nat) < 128) s"

text \<open>The keyword occurs in the text, its first occurrence starting below the bound.\<close>

definition occurs_before :: "string \<Rightarrow> nat \<Rightarrow> string \<Rightarrow> bool" where
  "occurs_before text bound kw =
     (case str_find text kw of None \<Rightarrow> False | Some position \<Rightarrow> position < bound)"

text \<open>
  The positional bonus and the score in the words of the specification, where the tiers
  are decided by whether \<^emph>\<open>some\<close> keyword occurs early, whatever the order of the keywords.
\<close>

definition claimed_position_bonus :: "string \<Rightarrow> string list \<Rightarrow> int" where
  "claimed_position_bonus text keywords =
     (if list_ex (occurs_before text 50) keywords then 3
      else if list_ex (occurs_before text 100) keywords then 2
      else 0)"

definition claimed_score :: "string \<Rightarrow> string \<Rightarrow> string list \<Rightarrow> int" where
  "claimed_score text query keywords =
     min (2 * int (card {kw \<in> set keywords. contains text kw})) 10
     + (if contains text (lower query) then 5 else 0)
     + claimed_position_bonus text keywords
     + (if length text > 100 then 2 else if length text > 50 then 1 else 0)"

section \<open>Example data\<close>

definition example_runtime :: runtime where
  "example_runtime = \<lparr>mcp_available = True, str_rank = (\<lambda>_. 0)\<rparr>"

definition item_far_then_near :: pydict where
  "item_far_then_near =
     [(''name'', PStr ''ROM layout''),
      (''description'', PStr ''Describes where the game code sits in the cartridge: see the Bank table'')]"

definition text_far_then_near :: string where
  "text_far_then_near =
     ''rom layout describes where the game code sits in the cartridge: see the bank table ''"

definition item_full_score :: pydict where
  "item_full_score =
     [(''topic'', PStr ''PPU DMA''),
      (''content'', PStr ''The CPU starts a DMA transfer from ROM to the PPU; the magic number of bytes per scanline depends on the mode.'')]"

definition rerank_example :: "pydict list" where
  "rerank_example =
     [[(''name'', PStr ''magic-a'')],
      [(''name'', PStr ''2x-speed'')],
      [(''name'', PStr ''magic meter of the player'')],
      [(''name'', PStr ''magic-b'')]]"

definition example_score :: "pydict \<Rightarrow> int" where
  "example_score item =
     (case calculate_relevance_score item ''magic meter'' [''magic'', ''player''] of
        Inl e \<Rightarrow> 0
      | Inr score \<Rightarrow> score)"

definition six_rows :: "pydict list" where
  "six_rows =
     [[(''name'', PStr ''r1'')], [(''name'', PStr ''r2'')], [(''name'', PStr ''r3'')],
      [(''name'', PStr ''r4'')], [(''name'', PStr ''r5'')], [(''name'', PStr ''r6'')]]"

definition crowded_store :: store where
  "crowded_store =
     \<lparr>mods_where_type_in = (\<lambda>types. Inr six_rows),
      mods_match_all = Inr six_rows,
      registers_by_category = (\<lambda>category. Inr six_rows),
      registers_match_all = Inr six_rows,
      components_where_name_in = (\<lambda>names. Inr six_rows),
      components_match_all = Inr six_rows,
      knowledge_matching = (\<lambda>kws. Inr six_rows)\<rparr>"

definition failing_store :: store where
  "failing_store =
     \<lparr>mods_where_type_in = (\<lambda>types. Inl Neo4jError),
      mods_match_all = Inr [],
      registers_by_category = (\<lambda>category. Inr []),
      registers_match_all = Inr [],
      components_where_name_in = (\<lambda>names. Inr []),
      components_match_all = Inr [],
      knowledge_matching = (\<lambda>kws. Inr [])\<rparr>"

definition empty_store :: store where
  "empty_store =
     \<lparr>mods_where_type_in = (\<lambda>types. Inr []),
      mods_match_all = Inr [],
      registers_by_category = (\<lambda>category. Inr []),
      registers_match_all = Inr [],
      components_where_name_in = (\<lambda>names. Inr []),
      components_match_all = Inr [],
      knowledge_matching = (\<lambda>kws. Inr [])\<rparr>"

definition example_store :: store where
  "example_store =
     \<lparr>mods_where_type_in = (\<lambda>types.
        Inr [[(''name'', PStr ''infinite-magic''),
              (''description'', PStr ''Never run out of magic power''),
              (''type'', PStr ''magic''),
              (''bytes'', PInt 7),
              (''components'', PList [''player'', ''hud''])]]),
      mods_match_all = Inr [],
      registers_by_category = (\<lambda>category.
        Inr [[(''address'', PStr ''$2100''),
              (''name'', PStr ''INIDISP''),
              (''description'', PStr ''PPU screen display''),
              (''category'', PStr ''ppu'')]]),
      registers_match_all = Inr [],
      components_where_name_in = (\<lambda>names. Inr []),
      components_match_all = Inr [],
      knowledge_matching = (\<lambda>kws. Inr [])\<rparr>"

text \<open>The same store, except for the answer to a query that the example does not issue.\<close>

definition example_store_variant :: store where
  "example_store_variant = example_store\<lparr>components_where_name_in := (\<lambda>names. Inl Neo4jError)\<rparr>"

text \<open>A store in which every query raises.\<close>

definition broken_store :: store where
  "broken_store =
     \<lparr>mods_where_type_in = (\<lambda>types. Inl Neo4jError),
      mods_match_all = Inl Neo4jError,
      registers_by_category = (\<lambda>category. Inl Neo4jError),
      registers_match_all = Inl Neo4jError,
      components_where_name_in = (\<lambda>names. Inl Neo4jError),
      components_match_all = Inl Neo4jError,
      knowledge_matching = (\<lambda>kws. Inl Neo4jError)\<rparr>"

text \<open>A second process, whose string hash iterates \<open>STA\<close> before every other string.\<close>

definition alternative_runtime :: runtime where
  "alternative_runtime =
     \<lparr>mcp_available = True, str_rank = (\<lambda>s. if s = ''STA'' then 0 else 1)\<rparr>"

definition text_full_score :: string where
  "text_full_score =
     ''ppu dma the cpu starts a dma transfer from rom to the ppu; the magic number of bytes per scanline depends on the mode. ''"

section \<open>Facts about strings and sets\<close>

lemma startswith_iff: "startswith s p \<longleftrightarrow> (\<exists>r. s = p @ r)"
  by (induction s p rule: startswith.induct) auto

lemma str_find_Some_D:
  "str_find s sub = Some i \<Longrightarrow> \<exists>a b. s = a @ sub @ b \<and> length a = i"
proof (induction s arbitrary: i)
  case Nil
  then show ?case by (auto split: if_splits)
next
  case (Cons c cs)
  show ?case
  proof (cases "startswith (c # cs) sub")
    case True
    with Cons.prems have "i = 0" by simp
    moreover from True obtain r where "c # cs = sub @ r" by (auto simp: startswith_iff)
    ultimately show ?thesis by (intro exI[of _ "[]"] exI[of _ r]) auto
  next
    case False
    with Cons.prems obtain j where j: "str_find cs sub = Some j" "i = Suc j" by auto
    from Cons.IH[OF j(1)] obtain a b where "cs = a @ sub @ b" "length a = j" by blast
    with j show ?thesis by (intro exI[of _ "c # a"] exI[of _ b]) auto
  qed
qed

lemma str_find_None_D: "str_find s sub = None \<Longrightarrow> s \<noteq> a @ sub @ b"
proof (induction s arbitrary: a)
  case Nil
  then show ?case by (auto split: if_splits)
next
  case (Cons c cs)
  from Cons.prems have ns: "\<not> startswith (c # cs) sub" and n: "str_find cs sub = None"
    by (auto split: if_splits)
  show ?case
  proof (cases a)
    case Nil
    with ns show ?thesis by (auto simp: startswith_iff)
  next
    case (Cons x a')
    with Cons.IH[OF n, of a'] show ?thesis by auto
  qed
qed

lemma contains_iff: "contains s sub \<longleftrightarrow> (\<exists>a b. s = a @ sub @ b)"
proof
  assume "contains s sub"
  then obtain i where "str_find s sub = Some i" by (auto simp: contains_def)
  from str_find_Some_D[OF this] show "\<exists>a b. s = a @ sub @ b" by blast
next
  assume "\<exists>a b. s = a @ sub @ b"
  then show "contains s sub"
    unfolding contains_def using str_find_None_D by blast
qed

lemma set_set_iter [simp]: "set (set_iter h xs) = set xs"
  by (simp add: set_iter_def)

lemma distinct_set_iter [simp]: "distinct (set_iter h xs)"
  by (simp add: set_iter_def)

lemma set_iter_Nil_iff [simp]: "set_iter h xs = [] \<longleftrightarrow> xs = []"
  by (metis set_set_iter set_empty)

lemma count_distinct:
  "distinct xs \<Longrightarrow> length (filter P xs) = card {x \<in> set xs. P x}"
  by (metis distinct_filter distinct_card set_filter)

section \<open>Keyword extraction\<close>

lemma vocabulary_normal:
  "list_all (\<lambda>phrase. lower (normalize_keyword phrase) = normalize_keyword phrase \<and>
       CHR '' '' \<notin> set (normalize_keyword phrase) \<and> CHR ''$'' \<notin> set (normalize_keyword phrase))
     all_keywords"
  by code_simp

lemma extract_keywords_set:
  "set (extract_keywords h query) =
     normalize_keyword ` {phrase \<in> set all_keywords. contains (lower query) phrase}"
  by (simp add: extract_keywords_def Let_def)

lemma extract_keywords_Nil_iff:
  "extract_keywords h query = [] \<longleftrightarrow> (\<forall>phrase \<in> set all_keywords. \<not> contains (lower query) phrase)"
  by (simp add: extract_keywords_def Let_def filter_empty_conv)

text \<open>
  Claim C9. Whatever the query and the iteration order, every token that
  \<^const>\<open>extract_keywords\<close> returns is lowercase, has no space and no \<open>$\<close>, and is the
  normalisation of a vocabulary phrase that occurs in the lowercased query; so the tokens
  always come from the fixed finite set of the normalised vocabulary, and no token is
  returned twice.
\<close>

theorem extract_keywords_normalized:
  "(\<forall>t \<in> set (extract_keywords h query).
      lower t = t \<and> CHR '' '' \<notin> set t \<and> CHR ''$'' \<notin> set t \<and>
      (\<exists>phrase \<in> set all_keywords. contains (lower query) phrase \<and> t = normalize_keyword phrase)) \<and>
   set (extract_keywords h query) \<subseteq> set (map normalize_keyword all_keywords) \<and>
   finite (set (map normalize_keyword all_keywords)) \<and>
   distinct (extract_keywords h query)"
proof -
  have "\<forall>phrase \<in> set all_keywords. lower (normalize_keyword phrase) = normalize_keyword phrase \<and>
       CHR '' '' \<notin> set (normalize_keyword phrase) \<and> CHR ''$'' \<notin> set (normalize_keyword phrase)"
    using vocabulary_normal by (simp only: list_all_iff)
  then show ?thesis
    by (auto simp: extract_keywords_set) (simp add: extract_keywords_def Let_def)
qed

theorem extract_keywords_normalized_witness:
  "extract_keywords (\<lambda>_. 0) ''Zelda 3 writes $2100'' = [''2100'', ''zelda-3''] \<and>
   lower ''zelda-3'' = ''zelda-3'' \<and> CHR '' '' \<notin> set ''zelda-3'' \<and> CHR ''$'' \<notin> set ''2100'' \<and>
   ''zelda-3'' \<in> set (map normalize_keyword all_keywords)"
proof -
  have e: "extract_keywords (\<lambda>_. 0) ''Zelda 3 writes $2100'' = [''2100'', ''zelda-3'']"
    by code_simp
  from extract_keywords_normalized[of "\<lambda>_. 0" "''Zelda 3 writes $2100''"] e
  show ?thesis by auto
qed

section \<open>The relevance score\<close>

lemma position_bonus_range: "0 \<le> position_bonus text kws \<and> position_bonus text kws \<le> 3"
  by (induction kws) (auto split: option.splits)

lemma position_bonus_first:
  "position_bonus text kws =
     (case List.find (occurs_before text 100) kws of
        None \<Rightarrow> 0
      | Some kw \<Rightarrow> if occurs_before text 50 kw then 3 else 2)"
  by (induction kws) (auto simp: occurs_before_def split: option.splits)

text \<open>
  The two readings of the positional bonus agree unless some keyword first occurs at an
  index from 50 to 99.
\<close>

lemma position_bonus_claimed:
  "\<not> list_ex (\<lambda>kw. occurs_before text 100 kw \<and> \<not> occurs_before text 50 kw) kws \<Longrightarrow>
   position_bonus text kws = claimed_position_bonus text kws"
  by (induction kws)
     (auto simp: claimed_position_bonus_def occurs_before_def list_ex_iff split: option.splits)

lemma text_part_error:
  "text_part item key = Inl e \<Longrightarrow> e = AttributeError"
  by (auto simp: text_part_def split: option.splits pyval.splits)

lemma text_part_ok:
  "(case map_of item key of None \<Rightarrow> True | Some (PStr s) \<Rightarrow> True | Some _ \<Rightarrow> False) \<longleftrightarrow>
   (\<exists>t. text_part item key = Inr t)"
  by (auto simp: text_part_def split: option.splits pyval.splits)

lemma searchable_text_ok:
  "text_fields_ok item \<longleftrightarrow> (\<exists>t. searchable_text item = Inr t)"
  unfolding text_fields_ok_def searchable_text_def then_do_def
  by (auto simp: text_part_ok split: sum.splits)

lemma searchable_text_error:
  "searchable_text item = Inl e \<Longrightarrow> e = AttributeError"
  unfolding searchable_text_def then_do_def
  by (auto split: sum.splits dest: text_part_error)

lemma score_unfold:
  "searchable_text item = Inr text \<Longrightarrow>
   calculate_relevance_score item query kws =
     Inr (min (int (length (filter (\<lambda>kw. contains text kw) kws)) * 2) 10
          + (if contains text (lower query) then 5 else 0)
          + position_bonus text kws
          + (if length text > 100 then 2 else if length text > 50 then 1 else 0))"
  by (simp add: calculate_relevance_score_def then_do_def Let_def)

lemma score_error:
  "searchable_text item = Inl e \<Longrightarrow> calculate_relevance_score item query kws = Inl e"
  by (simp add: calculate_relevance_score_def then_do_def Let_def)

text \<open>
  Claim C4, as amended. For an item whose text fields are strings, with searchable text
  \<open>text\<close>, and for a keyword set \<open>keywords\<close> given in its iteration order, the score is the
  sum of: \<open>min (2 \<times> number of keywords that occur in the text) 10\<close>; 5 if the lowercased
  query occurs in the text; the positional bonus; and 2 if the text is longer than 100
  characters, else 1 if it is longer than 50. The positional bonus is decided by the
  first keyword, in iteration order, whose first occurrence starts below index 100: it is
  3 if that occurrence starts below 50 and 2 otherwise, and 0 if there is no such keyword.
\<close>

theorem calculate_relevance_score_formula:
  assumes "searchable_text item = Inr text" and "distinct keywords"
  shows "calculate_relevance_score item query keywords =
     Inr (min (2 * int (card {kw \<in> set keywords. contains text kw})) 10
          + (if contains text (lower query) then 5 else 0)
          + (case List.find (occurs_before text 100) keywords of
               None \<Rightarrow> 0
             | Some kw \<Rightarrow> if occurs_before text 50 kw then 3 else 2)
          + (if length text > 100 then 2 else if length text > 50 then 1 else 0))"
  using assms
  by (simp add: score_unfold position_bonus_first count_distinct mult.commute)

theorem calculate_relevance_score_formula_witness:
  "calculate_relevance_score item_far_then_near ''zzz'' [''bank'', ''rom''] =
     Inr (min (2 * int (card {kw \<in> set [''bank'', ''rom'']. contains text_far_then_near kw})) 10
          + (if contains text_far_then_near (lower ''zzz'') then 5 else 0)
          + (case List.find (occurs_before text_far_then_near 100) [''bank'', ''rom''] of
               None \<Rightarrow> 0
             | Some kw \<Rightarrow> if occurs_before text_far_then_near 50 kw then 3 else 2)
          + (if length text_far_then_near > 100 then 2
             else if length text_far_then_near > 50 then 1 else 0)) \<and>
   List.find (occurs_before text_far_then_near 100) [''bank'', ''rom''] = Some ''bank'' \<and>
   \<not> occurs_before text_far_then_near 50 ''bank''"
proof -
  have t: "searchable_text item_far_then_near = Inr text_far_then_near"
    by code_simp
  have d: "distinct [''bank'', ''rom'']" by simp
  have f: "List.find (occurs_before text_far_then_near 100) [''bank'', ''rom''] = Some ''bank''"
    by code_simp
  have n: "\<not> occurs_before text_far_then_near 50 ''bank''"
    by code_simp
  from calculate_relevance_score_formula[OF t d, of "''zzz''"] f n show ?thesis by blast
qed

text \<open>
  Claim C4 as stated fails. In the item below, \<open>rom\<close> first occurs at index 0 and \<open>bank\<close>
  at index 72. When the keyword set is iterated with \<open>bank\<close> first, the loop stops at
  \<open>bank\<close> with a bonus of 2 and the score is 7; the stated formula gives a bonus of 3,
  because some keyword occurs below index 50, and a score of 8.
\<close>

theorem position_bonus_order_counterexample:
  "searchable_text item_far_then_near = Inr text_far_then_near \<and>
   calculate_relevance_score item_far_then_near ''zzz'' [''bank'', ''rom''] = Inr 7 \<and>
   claimed_score text_far_then_near ''zzz'' [''bank'', ''rom''] = 8"
proof -
  have "card {kw \<in> set [''bank'', ''rom'']. contains text_far_then_near kw} =
      length (filter (contains text_far_then_near) [''bank'', ''rom''])"
    by (rule count_distinct[symmetric]) simp
  also have "\<dots> = 2" by code_simp
  finally have c: "card {kw \<in> set [''bank'', ''rom'']. contains text_far_then_near kw} = 2" .
  have "claimed_position_bonus text_far_then_near [''bank'', ''rom''] = 3"
    by code_simp
  moreover have "\<not> contains text_far_then_near (lower ''zzz'')"
    by code_simp
  moreover have "length text_far_then_near = 83"
    by code_simp
  ultimately have "claimed_score text_far_then_near ''zzz'' [''bank'', ''rom''] = 8"
    unfolding claimed_score_def c by simp
  moreover have "searchable_text item_far_then_near = Inr text_far_then_near"
    by code_simp
  moreover have "calculate_relevance_score item_far_then_near ''zzz'' [''bank'', ''rom''] = Inr 7"
    by code_simp
  ultimately show ?thesis by simp
qed

text \<open>
  Claim C10. Every value that \<^const>\<open>calculate_relevance_score\<close> returns lies between 0
  and 20. It returns a value for every item whose text fields (those among name,
  description, topic and content that the item has) hold strings; for any other item the
  call of \<^verbatim>\<open>lower\<close> raises.
\<close>

theorem calculate_relevance_score_range:
  "(\<forall>score. calculate_relevance_score item query keywords = Inr score \<longrightarrow> 0 \<le> score \<and> score \<le> 20) \<and>
   (text_fields_ok item \<longrightarrow> (\<exists>score. calculate_relevance_score item query keywords = Inr score)) \<and>
   (\<not> text_fields_ok item \<longrightarrow> calculate_relevance_score item query keywords = Inl AttributeError)"
proof (cases "searchable_text item")
  case (Inl e)
  then have "e = AttributeError" by (rule searchable_text_error)
  with Inl have "calculate_relevance_score item query keywords = Inl AttributeError"
    by (simp add: score_error)
  moreover from Inl have "\<not> text_fields_ok item" by (simp add: searchable_text_ok)
  ultimately show ?thesis by simp
next
  case (Inr t)
  have ok: "text_fields_ok item" using Inr by (auto simp: searchable_text_ok)
  have "0 \<le> position_bonus t keywords" "position_bonus t keywords \<le> 3"
    using position_bonus_range by auto
  then show ?thesis
    using ok by (auto simp: score_unfold[OF Inr])
qed

text \<open>The bound 20 is reached.\<close>

theorem calculate_relevance_score_range_witness:
  "text_fields_ok item_full_score \<and>
   calculate_relevance_score item_full_score ''dma transfer''
     [''ppu'', ''cpu'', ''dma'', ''rom'', ''magic''] = Inr 20 \<and>
   (0::int) \<le> 20 \<and> (20::int) \<le> 20"
proof -
  have "calculate_relevance_score item_full_score ''dma transfer''
     [''ppu'', ''cpu'', ''dma'', ''rom'', ''magic''] = Inr 20"
    by code_simp
  moreover have "text_fields_ok item_full_score"
    by code_simp
  ultimately show ?thesis
    using calculate_relevance_score_range[of item_full_score "''dma transfer''"
        "[''ppu'', ''cpu'', ''dma'', ''rom'', ''magic'']"]
    by simp
qed

section \<open>Reranking\<close>

lemma scored_items_eq:
  "\<forall>item \<in> set all_items. calculate_relevance_score item query kws = Inr (sc item) \<Longrightarrow>
   scored_items all_items query kws =
     Inr (map (\<lambda>item. (sc item, item)) (filter (\<lambda>item. 0 < sc item) all_items))"
  by (induction all_items) auto

lemma scored_items_error:
  "scored_items all_items query kws = Inl e \<Longrightarrow>
   \<exists>item \<in> set all_items. calculate_relevance_score item query kws = Inl e"
  by (induction all_items) (auto split: sum.splits)

lemma insort_key_map:
  "insort_key f (g x) (map g xs) = map g (insort_key (\<lambda>a. f (g a)) x xs)"
  by (induction xs) auto

lemma sort_key_map:
  "sort_key f (map g xs) = map g (sort_key (\<lambda>a. f (g a)) xs)"
  by (induction xs) (auto simp: insort_key_map)

lemma slice_to_map: "slice_to n (map g xs) = map g (slice_to n xs)"
  by (simp add: slice_to_def take_map)

lemma rerank_results_eq:
  assumes "\<forall>item \<in> set all_items. calculate_relevance_score item query kws = Inr (sc item)"
  shows "rerank_results all_items query kws max_items =
     Inr (slice_to max_items (sort_key (\<lambda>item. - sc item) (filter (\<lambda>item. 0 < sc item) all_items)))"
proof -
  have "sort_by_score_desc (map (\<lambda>item. (sc item, item)) xs) =
        map (\<lambda>item. (sc item, item)) (sort_key (\<lambda>item. - sc item) xs)" for xs
    by (simp add: sort_by_score_desc_def sort_key_map comp_def)
  then show ?thesis
    by (simp add: rerank_results_def then_do_def scored_items_eq[OF assms] slice_to_map comp_def)
qed

lemma sorted_desc_sort_key:
  "sorted_wrt (\<lambda>a b. sc b \<le> sc a) (sort_key (\<lambda>item. - sc item) xs)"
  for sc :: "'a \<Rightarrow> int"
proof -
  have "sorted (map (\<lambda>item. - sc item) (sort_key (\<lambda>item. - sc item) xs))"
    by (rule sorted_sort_key)
  then show ?thesis
    by (simp add: sorted_wrt_map)
qed

lemma stable_desc_sort_key:
  "filter (\<lambda>item. sc item = k) (sort_key (\<lambda>item. - sc item) xs) = filter (\<lambda>item. sc item = k) xs"
  for sc :: "'a \<Rightarrow> int"
  using sort_key_stable[of "\<lambda>item. - sc item" "- k" xs] by simp

text \<open>
  Claim C3. Let every candidate of the merged list have a score \<open>sc\<close>. Then
  \<^const>\<open>rerank_results\<close> returns the slice \<^verbatim>\<open>[:max_items]\<close> of a list that is sorted by score
  in descending order and in which, for every score value, the candidates with that score
  are exactly the candidates of the merged list with that score, if it is positive, in
  their order in the merged list: candidates with a score of 0 or less are removed, all
  others are kept, and ties keep the merge order (\<^const>\<open>build_context\<close> merges mods, then
  registers, then components, then knowledge). For every bound \<open>max_items \<ge> 0\<close> the
  slice is the first \<open>max_items\<close> entries, so the result has at most \<open>max_items\<close> entries.
  (The statement also records what the slice is for a negative bound, which no caller
  passes.)
\<close>

theorem rerank_results_stable_sort:
  assumes "\<forall>item \<in> set all_items. calculate_relevance_score item query kws = Inr (sc item)"
  shows "\<exists>sorted_items.
     rerank_results all_items query kws max_items = Inr (slice_to max_items sorted_items) \<and>
     sorted_wrt (\<lambda>a b. sc b \<le> sc a) sorted_items \<and>
     (\<forall>k. filter (\<lambda>item. sc item = k) sorted_items =
          filter (\<lambda>item. sc item = k \<and> 0 < sc item) all_items) \<and>
     (if 0 \<le> max_items
      then slice_to max_items sorted_items = take (nat max_items) sorted_items \<and>
           int (length (slice_to max_items sorted_items)) \<le> max_items
      else slice_to max_items sorted_items =
             take (length sorted_items - nat (- max_items)) sorted_items)"
proof (intro exI conjI)
  show "rerank_results all_items query kws max_items =
     Inr (slice_to max_items (sort_key (\<lambda>item. - sc item) (filter (\<lambda>item. 0 < sc item) all_items)))"
    by (rule rerank_results_eq[OF assms])
  show "sorted_wrt (\<lambda>a b. sc b \<le> sc a)
     (sort_key (\<lambda>item. - sc item) (filter (\<lambda>item. 0 < sc item) all_items))"
    by (rule sorted_desc_sort_key)
  show "\<forall>k. filter (\<lambda>item. sc item = k)
          (sort_key (\<lambda>item. - sc item) (filter (\<lambda>item. 0 < sc item) all_items)) =
        filter (\<lambda>item. sc item = k \<and> 0 < sc item) all_items"
    by (simp add: stable_desc_sort_key conj_commute)
  show "if 0 \<le> max_items
      then slice_to max_items (sort_key (\<lambda>item. - sc item) (filter (\<lambda>item. 0 < sc item) all_items)) =
           take (nat max_items) (sort_key (\<lambda>item. - sc item) (filter (\<lambda>item. 0 < sc item) all_items)) \<and>
           int (length (slice_to max_items (sort_key (\<lambda>item. - sc item) (filter (\<lambda>item. 0 < sc item) all_items)))) \<le> max_items
      else slice_to max_items (sort_key (\<lambda>item. - sc item) (filter (\<lambda>item. 0 < sc item) all_items)) =
             take (length (sort_key (\<lambda>item. - sc item) (filter (\<lambda>item. 0 < sc item) all_items)) - nat (- max_items))
               (sort_key (\<lambda>item. - sc item) (filter (\<lambda>item. 0 < sc item) all_items))"
    by (auto simp: slice_to_def)
qed

lemma rerank_example_scores:
  "\<forall>item \<in> set rerank_example.
     calculate_relevance_score item ''magic meter'' [''magic'', ''player''] = Inr (example_score item)"
proof -
  have "list_all (\<lambda>item. calculate_relevance_score item ''magic meter'' [''magic'', ''player''] =
          Inr (example_score item)) rerank_example"
    by code_simp
  then show ?thesis by (simp only: list_all_iff)
qed

text \<open>
  The scores of the four example candidates are 5, 0, 12 and 5: the second is removed, the
  third comes first, and the first stays before the fourth.
\<close>

theorem rerank_results_stable_sort_witness:
  "(\<exists>sorted_items.
      rerank_results rerank_example ''magic meter'' [''magic'', ''player''] 2 =
        Inr (slice_to 2 sorted_items) \<and>
      sorted_wrt (\<lambda>a b. example_score b \<le> example_score a) sorted_items \<and>
      int (length (slice_to 2 sorted_items)) \<le> 2) \<and>
   rerank_results rerank_example ''magic meter'' [''magic'', ''player''] 2 =
     Inr [[(''name'', PStr ''magic meter of the player'')], [(''name'', PStr ''magic-a'')]]"
proof -
  have "rerank_results rerank_example ''magic meter'' [''magic'', ''player''] 2 =
     Inr [[(''name'', PStr ''magic meter of the player'')], [(''name'', PStr ''magic-a'')]]"
    by code_simp
  moreover from rerank_results_stable_sort[OF rerank_example_scores, of 2]
  have "\<exists>sorted_items.
      rerank_results rerank_example ''magic meter'' [''magic'', ''player''] 2 =
        Inr (slice_to 2 sorted_items) \<and>
      sorted_wrt (\<lambda>a b. example_score b \<le> example_score a) sorted_items \<and>
      int (length (slice_to 2 sorted_items)) \<le> 2"
    by auto
  ultimately show ?thesis by blast
qed

section \<open>Queries without keywords\<close>

text \<open>
  Claim C6. \<^const>\<open>extract_keywords\<close> produces the empty set exactly when no phrase of the
  vocabulary occurs in the lowercased query, and for every such query
  \<^const>\<open>build_context\<close> returns the empty string, whatever the store and the bound.
\<close>

theorem build_context_without_keywords:
  "(extract_keywords (str_rank rt) query = [] \<longleftrightarrow>
      (\<forall>phrase \<in> set all_keywords. \<not> contains (lower query) phrase)) \<and>
   (extract_keywords (str_rank rt) query = [] \<longrightarrow> build_context rt p query max_items = Inr [])"
  by (simp add: extract_keywords_Nil_iff build_context_def Let_def)

theorem build_context_without_keywords_witness:
  "extract_keywords (str_rank example_runtime) ''hello world'' = [] \<and>
   build_context example_runtime \<lparr>driver = Some crowded_store\<rparr> ''hello world'' 10 = Inr []"
proof -
  have "extract_keywords (str_rank example_runtime) ''hello world'' = []"
    by code_simp
  with build_context_without_keywords[of example_runtime "''hello world''"
      "\<lparr>driver = Some crowded_store\<rparr>" 10]
  show ?thesis by blast
qed

section \<open>Bounds of the retrievals\<close>

lemma limit_length: "limit n r = Inr rows \<Longrightarrow> length rows \<le> n"
  by (auto simp: limit_def split: sum.splits)

text \<open>
  Claim C5, as amended. The register retrieval returns at most 5 records, with or without
  an inferred category. The mod and the component retrieval return at most 3 records when
  no filter is inferred; when a filter is inferred they return every record that the
  store matches, without a cap.
\<close>

theorem retrieval_bounds:
  "(\<forall>rows. get_relevant_registers p kws = Inr rows \<longrightarrow> length rows \<le> 5) \<and>
   (\<forall>rows. mod_types_of kws = [] \<and> get_relevant_mods p kws = Inr rows \<longrightarrow> length rows \<le> 3) \<and>
   (\<forall>rows. component_names_of kws = [] \<and> get_relevant_components p kws = Inr rows \<longrightarrow>
      length rows \<le> 3) \<and>
   (\<forall>session. driver p = Some session \<and> mod_types_of kws \<noteq> [] \<longrightarrow>
      get_relevant_mods p kws = mods_where_type_in session (mod_types_of kws)) \<and>
   (\<forall>session. driver p = Some session \<and> component_names_of kws \<noteq> [] \<longrightarrow>
      get_relevant_components p kws = components_where_name_in session (component_names_of kws))"
proof (intro conjI allI impI)
  fix rows
  assume "get_relevant_registers p kws = Inr rows"
  then show "length rows \<le> 5"
    by (auto simp: get_relevant_registers_def split: option.splits dest: limit_length)
next
  fix rows
  assume "mod_types_of kws = [] \<and> get_relevant_mods p kws = Inr rows"
  then show "length rows \<le> 3"
    by (auto simp: get_relevant_mods_def Let_def split: option.splits dest: limit_length)
next
  fix rows
  assume "component_names_of kws = [] \<and> get_relevant_components p kws = Inr rows"
  then show "length rows \<le> 3"
    by (auto simp: get_relevant_components_def Let_def split: option.splits dest: limit_length)
next
  fix session
  assume "driver p = Some session \<and> mod_types_of kws \<noteq> []"
  then show "get_relevant_mods p kws = mods_where_type_in session (mod_types_of kws)"
    by (simp add: get_relevant_mods_def Let_def)
next
  fix session
  assume "driver p = Some session \<and> component_names_of kws \<noteq> []"
  then show "get_relevant_components p kws = components_where_name_in session (component_names_of kws)"
    by (simp add: get_relevant_components_def Let_def)
qed

theorem retrieval_bounds_witness:
  "get_relevant_registers \<lparr>driver = Some crowded_store\<rparr> [''rom''] = Inr (take 5 six_rows) \<and>
   length (take 5 six_rows) \<le> 5 \<and>
   mod_types_of [''rom''] = [] \<and>
   get_relevant_mods \<lparr>driver = Some crowded_store\<rparr> [''rom''] = Inr (take 3 six_rows) \<and>
   length (take 3 six_rows) \<le> 3 \<and>
   component_names_of [''rom''] = [] \<and>
   get_relevant_components \<lparr>driver = Some crowded_store\<rparr> [''rom''] = Inr (take 3 six_rows) \<and>
   mod_types_of [''magic'', ''player''] \<noteq> [] \<and>
   get_relevant_mods \<lparr>driver = Some crowded_store\<rparr> [''magic'', ''player''] =
     mods_where_type_in crowded_store (mod_types_of [''magic'', ''player'']) \<and>
   component_names_of [''magic'', ''player''] \<noteq> [] \<and>
   get_relevant_components \<lparr>driver = Some crowded_store\<rparr> [''magic'', ''player''] =
     components_where_name_in crowded_store (component_names_of [''magic'', ''player''])"
proof -
  have a: "get_relevant_registers \<lparr>driver = Some crowded_store\<rparr> [''rom''] = Inr (take 5 six_rows)"
    by (simp add: get_relevant_registers_def category_of_def crowded_store_def limit_def)
  have b: "mod_types_of [''rom''] = []" "component_names_of [''rom''] = []"
    by (simp_all add: mod_types_of_def component_names_of_def)
  have c: "get_relevant_mods \<lparr>driver = Some crowded_store\<rparr> [''rom''] = Inr (take 3 six_rows)"
    by (simp add: get_relevant_mods_def b crowded_store_def limit_def)
  have d: "get_relevant_components \<lparr>driver = Some crowded_store\<rparr> [''rom''] = Inr (take 3 six_rows)"
    by (simp add: get_relevant_components_def b crowded_store_def limit_def)
  have e: "mod_types_of [''magic'', ''player''] \<noteq> []" "component_names_of [''magic'', ''player''] \<noteq> []"
    by (simp_all add: mod_types_of_def component_names_of_def)
  have f: "driver \<lparr>driver = Some crowded_store\<rparr> = Some crowded_store" by simp
  from retrieval_bounds[of "\<lparr>driver = Some crowded_store\<rparr>" "[''rom'']"] a b c d
  have "length (take 5 six_rows) \<le> 5 \<and> length (take 3 six_rows) \<le> 3" by simp
  moreover from retrieval_bounds[of "\<lparr>driver = Some crowded_store\<rparr>" "[''magic'', ''player'']"] e f
  have "get_relevant_mods \<lparr>driver = Some crowded_store\<rparr> [''magic'', ''player''] =
     mods_where_type_in crowded_store (mod_types_of [''magic'', ''player'']) \<and>
     get_relevant_components \<lparr>driver = Some crowded_store\<rparr> [''magic'', ''player''] =
     components_where_name_in crowded_store (component_names_of [''magic'', ''player''])"
    by blast
  ultimately show ?thesis using a b c d e by simp
qed

text \<open>
  Claim C5 as stated fails. Against a store in which every query matches six records, the
  keywords \<open>magic\<close> and \<open>player\<close> infer a mod type and a component name, and both filtered
  retrievals return all six records, more than 5; they infer no register category, and
  the register retrieval returns five records, more than 3.
\<close>

theorem retrieval_cap_counterexample:
  "mod_types_of [''magic'', ''player''] = [''magic''] \<and>
   get_relevant_mods \<lparr>driver = Some crowded_store\<rparr> [''magic'', ''player''] = Inr six_rows \<and>
   component_names_of [''magic'', ''player''] = [''player''] \<and>
   get_relevant_components \<lparr>driver = Some crowded_store\<rparr> [''magic'', ''player''] = Inr six_rows \<and>
   \<not> length six_rows \<le> 5 \<and>
   category_of [''magic'', ''player''] = None \<and>
   get_relevant_registers \<lparr>driver = Some crowded_store\<rparr> [''magic'', ''player''] =
     Inr (take 5 six_rows) \<and>
   \<not> length (take 5 six_rows) \<le> 3"
  by (simp add: mod_types_of_def component_names_of_def category_of_def get_relevant_mods_def
      get_relevant_components_def get_relevant_registers_def crowded_store_def limit_def
      six_rows_def)

section \<open>Store failures\<close>

lemma then_do_Inl: "r = Inl e \<Longrightarrow> then_do r f = Inl e"
  by (simp add: then_do_def)

lemma then_do_Inr: "r = Inr x \<Longrightarrow> then_do r f = f x"
  by (simp add: then_do_def)

lemma limit_Inl: "r = Inl e \<Longrightarrow> limit n r = Inl e"
  by (simp add: limit_def)

text \<open>
  Once the store is available and the query has keywords, \<^const>\<open>build_context\<close> is the
  four retrievals in sequence followed by the rest.
\<close>

lemma build_context_available:
  assumes "is_available p" and "extract_keywords (str_rank rt) query \<noteq> []"
  shows "build_context rt p query max_items =
     then_do (get_relevant_mods p (extract_keywords (str_rank rt) query)) (\<lambda>mods.
     then_do (get_relevant_registers p (extract_keywords (str_rank rt) query)) (\<lambda>registers.
     then_do (get_relevant_components p (extract_keywords (str_rank rt) query)) (\<lambda>components.
     then_do (get_relevant_knowledge p (extract_keywords (str_rank rt) query)) (\<lambda>knowledge.
       (let all_items = tagged ''mod'' mods @ tagged ''register'' registers @
                        tagged ''component'' components @ tagged ''knowledge'' knowledge
        in if all_items = [] then Inr []
           else
             then_do (rerank_results all_items query (extract_keywords (str_rank rt) query) max_items)
               (\<lambda>ranked_items.
                  if ranked_items = [] then Inr []
                  else assemble_context rt query ranked_items))))))"
  using assms by (simp only: build_context_def Let_def simp_thms if_False)

text \<open>
  Claim C1, as amended. When the store is unavailable (the pipeline has no driver), each
  of the four retrievals returns the empty sequence and \<^const>\<open>build_context\<close> returns the
  empty string. When the store is available, an exception that the store raises while it
  runs the query of a retrieval (the filtered or the unfiltered query for mods, registers
  and components, the matching query for knowledge) is not caught: the retrieval raises
  that exception. When moreover the query has keywords, the exception of the first
  retrieval that fails, in the order mods, registers, components, knowledge, leaves
  \<^const>\<open>build_context\<close>. Every exception of \<^const>\<open>build_context\<close> is caught by the entry
  point \<^const>\<open>get_rag_context\<close>, which returns \<^verbatim>\<open>None\<close>.
\<close>

theorem store_failure_handling:
  "(driver p = None \<longrightarrow>
      get_relevant_mods p kws = Inr [] \<and> get_relevant_registers p kws = Inr [] \<and>
      get_relevant_components p kws = Inr [] \<and> get_relevant_knowledge p kws = Inr [] \<and>
      build_context rt p query max_items = Inr []) \<and>
   (\<forall>session e. driver p = Some session \<longrightarrow>
      (mod_types_of kws \<noteq> [] \<and> mods_where_type_in session (mod_types_of kws) = Inl e \<longrightarrow>
         get_relevant_mods p kws = Inl e) \<and>
      (mod_types_of kws = [] \<and> mods_match_all session = Inl e \<longrightarrow>
         get_relevant_mods p kws = Inl e) \<and>
      (\<forall>category. category_of kws = Some category \<and>
         registers_by_category session category = Inl e \<longrightarrow>
         get_relevant_registers p kws = Inl e) \<and>
      (category_of kws = None \<and> registers_match_all session = Inl e \<longrightarrow>
         get_relevant_registers p kws = Inl e) \<and>
      (component_names_of kws \<noteq> [] \<and>
         components_where_name_in session (component_names_of kws) = Inl e \<longrightarrow>
         get_relevant_components p kws = Inl e) \<and>
      (component_names_of kws = [] \<and> components_match_all session = Inl e \<longrightarrow>
         get_relevant_components p kws = Inl e) \<and>
      (knowledge_matching session kws = Inl e \<longrightarrow> get_relevant_knowledge p kws = Inl e)) \<and>
   (\<forall>e. is_available p \<and> extract_keywords (str_rank rt) query \<noteq> [] \<longrightarrow>
      (get_relevant_mods p (extract_keywords (str_rank rt) query) = Inl e \<longrightarrow>
         build_context rt p query max_items = Inl e) \<and>
      ((\<exists>mods. get_relevant_mods p (extract_keywords (str_rank rt) query) = Inr mods) \<and>
       get_relevant_registers p (extract_keywords (str_rank rt) query) = Inl e \<longrightarrow>
         build_context rt p query max_items = Inl e) \<and>
      ((\<exists>mods. get_relevant_mods p (extract_keywords (str_rank rt) query) = Inr mods) \<and>
       (\<exists>registers. get_relevant_registers p (extract_keywords (str_rank rt) query) = Inr registers) \<and>
       get_relevant_components p (extract_keywords (str_rank rt) query) = Inl e \<longrightarrow>
         build_context rt p query max_items = Inl e) \<and>
      ((\<exists>mods. get_relevant_mods p (extract_keywords (str_rank rt) query) = Inr mods) \<and>
       (\<exists>registers. get_relevant_registers p (extract_keywords (str_rank rt) query) = Inr registers) \<and>
       (\<exists>components. get_relevant_components p (extract_keywords (str_rank rt) query) = Inr components) \<and>
       get_relevant_knowledge p (extract_keywords (str_rank rt) query) = Inl e \<longrightarrow>
         build_context rt p query max_items = Inl e)) \<and>
   (\<forall>e. build_context rt p query 10 = Inl e \<longrightarrow> get_rag_context rt p query = None)"
proof (intro conjI)
  show "driver p = None \<longrightarrow>
      get_relevant_mods p kws = Inr [] \<and> get_relevant_registers p kws = Inr [] \<and>
      get_relevant_components p kws = Inr [] \<and> get_relevant_knowledge p kws = Inr [] \<and>
      build_context rt p query max_items = Inr []"
    by (simp add: get_relevant_mods_def get_relevant_registers_def
        get_relevant_components_def get_relevant_knowledge_def build_context_def is_available_def)
next
  show "\<forall>session e. driver p = Some session \<longrightarrow>
      (mod_types_of kws \<noteq> [] \<and> mods_where_type_in session (mod_types_of kws) = Inl e \<longrightarrow>
         get_relevant_mods p kws = Inl e) \<and>
      (mod_types_of kws = [] \<and> mods_match_all session = Inl e \<longrightarrow>
         get_relevant_mods p kws = Inl e) \<and>
      (\<forall>category. category_of kws = Some category \<and>
         registers_by_category session category = Inl e \<longrightarrow>
         get_relevant_registers p kws = Inl e) \<and>
      (category_of kws = None \<and> registers_match_all session = Inl e \<longrightarrow>
         get_relevant_registers p kws = Inl e) \<and>
      (component_names_of kws \<noteq> [] \<and>
         components_where_name_in session (component_names_of kws) = Inl e \<longrightarrow>
         get_relevant_components p kws = Inl e) \<and>
      (component_names_of kws = [] \<and> components_match_all session = Inl e \<longrightarrow>
         get_relevant_components p kws = Inl e) \<and>
      (knowledge_matching session kws = Inl e \<longrightarrow> get_relevant_knowledge p kws = Inl e)"
    by (simp add: get_relevant_mods_def get_relevant_registers_def
        get_relevant_components_def get_relevant_knowledge_def Let_def limit_Inl)
next
  show "\<forall>e. is_available p \<and> extract_keywords (str_rank rt) query \<noteq> [] \<longrightarrow>
      (get_relevant_mods p (extract_keywords (str_rank rt) query) = Inl e \<longrightarrow>
         build_context rt p query max_items = Inl e) \<and>
      ((\<exists>mods. get_relevant_mods p (extract_keywords (str_rank rt) query) = Inr mods) \<and>
       get_relevant_registers p (extract_keywords (str_rank rt) query) = Inl e \<longrightarrow>
         build_context rt p query max_items = Inl e) \<and>
      ((\<exists>mods. get_relevant_mods p (extract_keywords (str_rank rt) query) = Inr mods) \<and>
       (\<exists>registers. get_relevant_registers p (extract_keywords (str_rank rt) query) = Inr registers) \<and>
       get_relevant_components p (extract_keywords (str_rank rt) query) = Inl e \<longrightarrow>
         build_context rt p query max_items = Inl e) \<and>
      ((\<exists>mods. get_relevant_mods p (extract_keywords (str_rank rt) query) = Inr mods) \<and>
       (\<exists>registers. get_relevant_registers p (extract_keywords (str_rank rt) query) = Inr registers) \<and>
       (\<exists>components. get_relevant_components p (extract_keywords (str_rank rt) query) = Inr components) \<and>
       get_relevant_knowledge p (extract_keywords (str_rank rt) query) = Inl e \<longrightarrow>
         build_context rt p query max_items = Inl e)"
  proof (intro allI impI)
    fix e
    assume "is_available p \<and> extract_keywords (str_rank rt) query \<noteq> []"
    then have b: "build_context rt p query max_items =
       then_do (get_relevant_mods p (extract_keywords (str_rank rt) query)) (\<lambda>mods.
       then_do (get_relevant_registers p (extract_keywords (str_rank rt) query)) (\<lambda>registers.
       then_do (get_relevant_components p (extract_keywords (str_rank rt) query)) (\<lambda>components.
       then_do (get_relevant_knowledge p (extract_keywords (str_rank rt) query)) (\<lambda>knowledge.
         (let all_items = tagged ''mod'' mods @ tagged ''register'' registers @
                          tagged ''component'' components @ tagged ''knowledge'' knowledge
          in if all_items = [] then Inr []
             else
               then_do (rerank_results all_items query (extract_keywords (str_rank rt) query) max_items)
                 (\<lambda>ranked_items.
                    if ranked_items = [] then Inr []
                    else assemble_context rt query ranked_items))))))"
      using build_context_available by blast
    show "(get_relevant_mods p (extract_keywords (str_rank rt) query) = Inl e \<longrightarrow>
         build_context rt p query max_items = Inl e) \<and>
      ((\<exists>mods. get_relevant_mods p (extract_keywords (str_rank rt) query) = Inr mods) \<and>
       get_relevant_registers p (extract_keywords (str_rank rt) query) = Inl e \<longrightarrow>
         build_context rt p query max_items = Inl e) \<and>
      ((\<exists>mods. get_relevant_mods p (extract_keywords (str_rank rt) query) = Inr mods) \<and>
       (\<exists>registers. get_relevant_registers p (extract_keywords (str_rank rt) query) = Inr registers) \<and>
       get_relevant_components p (extract_keywords (str_rank rt) query) = Inl e \<longrightarrow>
         build_context rt p query max_items = Inl e) \<and>
      ((\<exists>mods. get_relevant_mods p (extract_keywords (str_rank rt) query) = Inr mods) \<and>
       (\<exists>registers. get_relevant_registers p (extract_keywords (str_rank rt) query) = Inr registers) \<and>
       (\<exists>components. get_relevant_components p (extract_keywords (str_rank rt) query) = Inr components) \<and>
       get_relevant_knowledge p (extract_keywords (str_rank rt) query) = Inl e \<longrightarrow>
         build_context rt p query max_items = Inl e)"
      unfolding b by (auto simp: then_do_Inl then_do_Inr)
  qed
next
  show "\<forall>e. build_context rt p query 10 = Inl e \<longrightarrow> get_rag_context rt p query = None"
    by (auto simp: get_rag_context_def)
qed

text \<open>
  Against a store in which every query raises, each retrieval raises, for keywords that
  infer a filter and for keywords that infer none. For the query \<open>infinite magic\<close>, a
  store that fails only in the register query, or only in the knowledge query, makes
  \<^const>\<open>build_context\<close> raise after the earlier retrievals have succeeded.
\<close>

theorem store_failure_handling_witness:
  "get_relevant_mods \<lparr>driver = None\<rparr> [''magic''] = Inr [] \<and>
   build_context example_runtime \<lparr>driver = None\<rparr> ''infinite magic'' 10 = Inr [] \<and>
   get_relevant_mods \<lparr>driver = Some broken_store\<rparr> [''magic'', ''ppu'', ''player''] = Inl Neo4jError \<and>
   get_relevant_registers \<lparr>driver = Some broken_store\<rparr> [''magic'', ''ppu'', ''player''] = Inl Neo4jError \<and>
   get_relevant_components \<lparr>driver = Some broken_store\<rparr> [''magic'', ''ppu'', ''player''] = Inl Neo4jError \<and>
   get_relevant_knowledge \<lparr>driver = Some broken_store\<rparr> [''magic'', ''ppu'', ''player''] = Inl Neo4jError \<and>
   get_relevant_mods \<lparr>driver = Some broken_store\<rparr> [''rom''] = Inl Neo4jError \<and>
   get_relevant_registers \<lparr>driver = Some broken_store\<rparr> [''rom''] = Inl Neo4jError \<and>
   get_relevant_components \<lparr>driver = Some broken_store\<rparr> [''rom''] = Inl Neo4jError \<and>
   build_context example_runtime \<lparr>driver = Some broken_store\<rparr> ''infinite magic'' 10 = Inl Neo4jError \<and>
   build_context example_runtime
     \<lparr>driver = Some (empty_store\<lparr>registers_match_all := Inl Neo4jError\<rparr>)\<rparr> ''infinite magic'' 10 =
     Inl Neo4jError \<and>
   build_context example_runtime
     \<lparr>driver = Some (empty_store\<lparr>components_match_all := Inl Neo4jError\<rparr>)\<rparr> ''infinite magic'' 10 =
     Inl Neo4jError \<and>
   build_context example_runtime
     \<lparr>driver = Some (empty_store\<lparr>knowledge_matching := \<lambda>kws. Inl Neo4jError\<rparr>)\<rparr> ''infinite magic'' 10 =
     Inl Neo4jError \<and>
   get_rag_context example_runtime \<lparr>driver = Some broken_store\<rparr> ''infinite magic'' = None"
proof -
  have k: "extract_keywords (str_rank example_runtime) ''infinite magic'' = [''infinite-magic'', ''magic'']"
    by code_simp
  have kn: "[''infinite-magic'', ''magic''] \<noteq> ([] :: string list)" by simp
  have f1: "mod_types_of [''magic'', ''ppu'', ''player''] \<noteq> []"
    "category_of [''magic'', ''ppu'', ''player''] = Some ''ppu''"
    "component_names_of [''magic'', ''ppu'', ''player''] \<noteq> []"
    by (simp_all add: mod_types_of_def category_of_def component_names_of_def)
  have f2: "mod_types_of [''rom''] = []" "category_of [''rom''] = None"
    "component_names_of [''rom''] = []"
    by (simp_all add: mod_types_of_def category_of_def component_names_of_def)
  have f3: "mod_types_of [''infinite-magic'', ''magic''] \<noteq> []"
    "category_of [''infinite-magic'', ''magic''] = None"
    "component_names_of [''infinite-magic'', ''magic''] = []"
    by (simp_all add: mod_types_of_def category_of_def component_names_of_def)
  have br: "mods_where_type_in broken_store ts = Inl Neo4jError"
    "mods_match_all broken_store = Inl Neo4jError"
    "registers_by_category broken_store c = Inl Neo4jError"
    "registers_match_all broken_store = Inl Neo4jError"
    "components_where_name_in broken_store ns = Inl Neo4jError"
    "components_match_all broken_store = Inl Neo4jError"
    "knowledge_matching broken_store ks = Inl Neo4jError" for ts c ns ks
    by (simp_all add: broken_store_def)
  note u = store_failure_handling[of "\<lparr>driver = None\<rparr>" "[''magic'']" example_runtime
      "''infinite magic''" 10, THEN conjunct1]
  have 1: "get_relevant_mods \<lparr>driver = None\<rparr> [''magic''] = Inr []"
    "build_context example_runtime \<lparr>driver = None\<rparr> ''infinite magic'' 10 = Inr []"
    using u by simp_all
  note r = store_failure_handling[of "\<lparr>driver = Some broken_store\<rparr>" _ example_runtime
      "''infinite magic''" 10, THEN conjunct2, THEN conjunct1, rule_format,
      where session = broken_store and e = Neo4jError]
  have d: "driver \<lparr>driver = Some broken_store\<rparr> = Some broken_store" by simp
  have 2: "get_relevant_mods \<lparr>driver = Some broken_store\<rparr> [''magic'', ''ppu'', ''player''] = Inl Neo4jError"
    "get_relevant_registers \<lparr>driver = Some broken_store\<rparr> [''magic'', ''ppu'', ''player''] = Inl Neo4jError"
    "get_relevant_components \<lparr>driver = Some broken_store\<rparr> [''magic'', ''ppu'', ''player''] = Inl Neo4jError"
    "get_relevant_knowledge \<lparr>driver = Some broken_store\<rparr> [''magic'', ''ppu'', ''player''] = Inl Neo4jError"
    using r[where kws = "[''magic'', ''ppu'', ''player'']", OF d] f1 br by blast+
  have 3: "get_relevant_mods \<lparr>driver = Some broken_store\<rparr> [''rom''] = Inl Neo4jError"
    "get_relevant_registers \<lparr>driver = Some broken_store\<rparr> [''rom''] = Inl Neo4jError"
    "get_relevant_components \<lparr>driver = Some broken_store\<rparr> [''rom''] = Inl Neo4jError"
    using r[where kws = "[''rom'']", OF d] f2 br by blast+
  have m: "get_relevant_mods \<lparr>driver = Some broken_store\<rparr> [''infinite-magic'', ''magic''] = Inl Neo4jError"
    using r[where kws = "[''infinite-magic'', ''magic'']", OF d] f3 br by blast
  have 4: "build_context example_runtime \<lparr>driver = Some broken_store\<rparr> ''infinite magic'' 10 = Inl Neo4jError"
    using store_failure_handling[of "\<lparr>driver = Some broken_store\<rparr>" "[]" example_runtime
        "''infinite magic''" 10, THEN conjunct2, THEN conjunct2, THEN conjunct1, rule_format, where e = Neo4jError]
      m kn
    unfolding k by (simp add: is_available_def)
  have 5: "build_context example_runtime
     \<lparr>driver = Some (empty_store\<lparr>registers_match_all := Inl Neo4jError\<rparr>)\<rparr> ''infinite magic'' 10 =
     Inl Neo4jError"
    using store_failure_handling[of "\<lparr>driver = Some (empty_store\<lparr>registers_match_all := Inl Neo4jError\<rparr>)\<rparr>"
        "[]" example_runtime "''infinite magic''" 10,
        THEN conjunct2, THEN conjunct2, THEN conjunct1, rule_format, where e = Neo4jError] kn
    unfolding k
    by (simp add: is_available_def get_relevant_mods_def get_relevant_registers_def f3 limit_def
        empty_store_def)
  have 6: "build_context example_runtime
     \<lparr>driver = Some (empty_store\<lparr>components_match_all := Inl Neo4jError\<rparr>)\<rparr> ''infinite magic'' 10 =
     Inl Neo4jError"
    using store_failure_handling[of "\<lparr>driver = Some (empty_store\<lparr>components_match_all := Inl Neo4jError\<rparr>)\<rparr>"
        "[]" example_runtime "''infinite magic''" 10,
        THEN conjunct2, THEN conjunct2, THEN conjunct1, rule_format, where e = Neo4jError] kn
    unfolding k
    by (simp add: is_available_def get_relevant_mods_def get_relevant_registers_def
        get_relevant_components_def f3 limit_def empty_store_def)
  have 7: "build_context example_runtime
     \<lparr>driver = Some (empty_store\<lparr>knowledge_matching := \<lambda>kws. Inl Neo4jError\<rparr>)\<rparr> ''infinite magic'' 10 =
     Inl Neo4jError"
    using store_failure_handling[of "\<lparr>driver = Some (empty_store\<lparr>knowledge_matching := \<lambda>kws. Inl Neo4jError\<rparr>)\<rparr>"
        "[]" example_runtime "''infinite magic''" 10,
        THEN conjunct2, THEN conjunct2, THEN conjunct1, rule_format, where e = Neo4jError] kn
    unfolding k
    by (simp add: is_available_def get_relevant_mods_def get_relevant_registers_def
        get_relevant_components_def get_relevant_knowledge_def f3 limit_def empty_store_def)
  have 8: "get_rag_context example_runtime \<lparr>driver = Some broken_store\<rparr> ''infinite magic'' = None"
    using store_failure_handling[of "\<lparr>driver = Some broken_store\<rparr>" "[]" example_runtime
        "''infinite magic''" 10, THEN conjunct2, THEN conjunct2, THEN conjunct2, rule_format, where e = Neo4jError] 4
    by simp
  from 1 2 3 4 5 6 7 8 show ?thesis by (intro conjI)
qed

text \<open>
  Claim C1 as stated fails. Against a store whose filtered mod query raises, the mod
  retrieval for the query \<open>infinite magic\<close> raises instead of returning an empty sequence,
  and the exception leaves \<^const>\<open>build_context\<close>.
\<close>

theorem store_failure_counterexample:
  "is_available \<lparr>driver = Some failing_store\<rparr> \<and>
   extract_keywords (str_rank example_runtime) ''infinite magic'' = [''infinite-magic'', ''magic''] \<and>
   get_relevant_mods \<lparr>driver = Some failing_store\<rparr> [''infinite-magic'', ''magic''] = Inl Neo4jError \<and>
   build_context example_runtime \<lparr>driver = Some failing_store\<rparr> ''infinite magic'' 10 = Inl Neo4jError"
proof -
  have k: "extract_keywords (str_rank example_runtime) ''infinite magic'' = [''infinite-magic'', ''magic'']"
    by code_simp
  have m: "get_relevant_mods \<lparr>driver = Some failing_store\<rparr> [''infinite-magic'', ''magic''] = Inl Neo4jError"
    by (simp add: get_relevant_mods_def mod_types_of_def failing_store_def)
  have "build_context example_runtime \<lparr>driver = Some failing_store\<rparr> ''infinite magic'' 10 = Inl Neo4jError"
    by (simp add: build_context_def is_available_def k m then_do_def)
  with k m show ?thesis by (simp add: is_available_def)
qed

section \<open>Determinism and the iteration order of sets\<close>

lemma sort_key_short: "length ys \<le> 1 \<Longrightarrow> sort_key h ys = ys"
  by (cases ys) auto

lemma set_iter_small: "card (set xs) \<le> 1 \<Longrightarrow> set_iter h xs = set_iter h' xs"
proof -
  assume c: "card (set xs) \<le> 1"
  have "length (rev (remdups (rev xs))) = card (set xs)"
    by (metis distinct_card distinct_remdups distinct_rev length_rev set_remdups set_rev)
  with c have "length (rev (remdups (rev xs))) \<le> 1" by simp
  then show ?thesis by (simp only: set_iter_def sort_key_short)
qed

lemma detect_and_explain_instructions_order:
  "mcp_available rt = mcp_available rt' \<Longrightarrow>
   set_iter (str_rank rt) (findall_instructions None (upper q)) =
     set_iter (str_rank rt') (findall_instructions None (upper q)) \<Longrightarrow>
   detect_and_explain_instructions rt q = detect_and_explain_instructions rt' q"
  by (simp only: detect_and_explain_instructions_def Let_def)

lemma detect_and_explain_addresses_order:
  "mcp_available rt = mcp_available rt' \<Longrightarrow>
   set_iter (str_rank rt) (findall_addresses q) = set_iter (str_rank rt') (findall_addresses q) \<Longrightarrow>
   detect_and_explain_addresses rt q = detect_and_explain_addresses rt' q"
  by (simp only: detect_and_explain_addresses_def Let_def)

lemma assemble_context_order:
  "mcp_available rt = mcp_available rt' \<Longrightarrow>
   detect_and_explain_instructions rt q = detect_and_explain_instructions rt' q \<Longrightarrow>
   detect_and_explain_addresses rt q = detect_and_explain_addresses rt' q \<Longrightarrow>
   assemble_context rt q ranked = assemble_context rt' q ranked"
  by (simp only: assemble_context_def enrichment_parts_def footer_of_def Let_def)

lemma build_context_order:
  assumes "mcp_available rt = mcp_available rt'"
    and "extract_keywords (str_rank rt) q = extract_keywords (str_rank rt') q"
    and "set_iter (str_rank rt) (findall_instructions None (upper q)) =
         set_iter (str_rank rt') (findall_instructions None (upper q))"
    and "set_iter (str_rank rt) (findall_addresses q) = set_iter (str_rank rt') (findall_addresses q)"
    and "is_available p = is_available p'"
    and "get_relevant_mods p (extract_keywords (str_rank rt) q) =
         get_relevant_mods p' (extract_keywords (str_rank rt) q)"
    and "get_relevant_registers p (extract_keywords (str_rank rt) q) =
         get_relevant_registers p' (extract_keywords (str_rank rt) q)"
    and "get_relevant_components p (extract_keywords (str_rank rt) q) =
         get_relevant_components p' (extract_keywords (str_rank rt) q)"
    and "get_relevant_knowledge p (extract_keywords (str_rank rt) q) =
         get_relevant_knowledge p' (extract_keywords (str_rank rt) q)"
  shows "build_context rt p q n = build_context rt' p' q n"
proof -
  have a: "assemble_context rt q ranked = assemble_context rt' q ranked" for ranked
    using assms(1) detect_and_explain_instructions_order[OF assms(1,3)]
      detect_and_explain_addresses_order[OF assms(1,4)]
    by (rule assemble_context_order)
  have "build_context rt p q n =
      (if \<not> is_available p' then Inr []
       else if extract_keywords (str_rank rt) q = [] then Inr []
       else
         then_do (get_relevant_mods p' (extract_keywords (str_rank rt) q)) (\<lambda>mods.
         then_do (get_relevant_registers p' (extract_keywords (str_rank rt) q)) (\<lambda>registers.
         then_do (get_relevant_components p' (extract_keywords (str_rank rt) q)) (\<lambda>components.
         then_do (get_relevant_knowledge p' (extract_keywords (str_rank rt) q)) (\<lambda>knowledge.
           if tagged ''mod'' mods @ tagged ''register'' registers @
              tagged ''component'' components @ tagged ''knowledge'' knowledge = [] then Inr []
           else
             then_do (rerank_results
                        (tagged ''mod'' mods @ tagged ''register'' registers @
                         tagged ''component'' components @ tagged ''knowledge'' knowledge)
                        q (extract_keywords (str_rank rt) q) n)
               (\<lambda>ranked_items.
                  if ranked_items = [] then Inr []
                  else assemble_context rt' q ranked_items))))))"
    by (simp only: build_context_def Let_def assms(5-9) a)
  also have "\<dots> = build_context rt' p' q n"
    by (simp only: build_context_def Let_def assms(2))
  finally show ?thesis .
qed

lemma score_order_independent:
  assumes "searchable_text item = Inr text" and "set kws = set kws'"
    and "distinct kws" and "distinct kws'"
    and "\<not> (\<exists>kw \<in> set kws. occurs_before text 100 kw \<and> \<not> occurs_before text 50 kw)"
  shows "calculate_relevance_score item q kws = calculate_relevance_score item q kws'"
proof -
  have "length (filter (\<lambda>kw. contains text kw) kws) = length (filter (\<lambda>kw. contains text kw) kws')"
    using assms(2-4) by (simp add: count_distinct)
  moreover have "position_bonus text kws = claimed_position_bonus text kws"
    using assms(5) by (intro position_bonus_claimed) (simp add: list_ex_iff)
  moreover have "position_bonus text kws' = claimed_position_bonus text kws'"
    using assms(2,5) by (intro position_bonus_claimed) (simp add: list_ex_iff)
  moreover have "claimed_position_bonus text kws = claimed_position_bonus text kws'"
    using assms(2) by (simp add: claimed_position_bonus_def list_ex_iff)
  ultimately show ?thesis
    by (simp add: score_unfold[OF assms(1)])
qed

text \<open>
  Claim C7, as amended. Two calls of \<^const>\<open>build_context\<close> with the same query and bound,
  against stores that are equally available and return identical results for the four
  retrievals of this query, yield the same output, be it a string or an exception,
  provided that both calls iterate the three string sets involved (the keyword set, the
  set of detected mnemonics and the set of detected addresses) in the same order, as two
  calls in one process do; the iteration order is immaterial when each of these sets has
  at most one element. The relevance score of an item whose text fields are strings is
  the same for every iteration order of the keyword set, provided that no keyword first
  occurs at an index from 50 to 99; and it is determined by the four text fields of the
  item, the lowercased query and the keyword set in its iteration order.
\<close>

theorem build_context_deterministic:
  "(mcp_available rt = mcp_available rt' \<and>
    extract_keywords (str_rank rt) query = extract_keywords (str_rank rt') query \<and>
    set_iter (str_rank rt) (findall_instructions None (upper query)) =
      set_iter (str_rank rt') (findall_instructions None (upper query)) \<and>
    set_iter (str_rank rt) (findall_addresses query) =
      set_iter (str_rank rt') (findall_addresses query) \<and>
    is_available p = is_available p' \<and>
    get_relevant_mods p (extract_keywords (str_rank rt) query) =
      get_relevant_mods p' (extract_keywords (str_rank rt) query) \<and>
    get_relevant_registers p (extract_keywords (str_rank rt) query) =
      get_relevant_registers p' (extract_keywords (str_rank rt) query) \<and>
    get_relevant_components p (extract_keywords (str_rank rt) query) =
      get_relevant_components p' (extract_keywords (str_rank rt) query) \<and>
    get_relevant_knowledge p (extract_keywords (str_rank rt) query) =
      get_relevant_knowledge p' (extract_keywords (str_rank rt) query) \<longrightarrow>
    build_context rt p query max_items = build_context rt' p' query max_items) \<and>
   (mcp_available rt = mcp_available rt' \<and>
    card (set (extract_keywords (str_rank rt) query)) \<le> 1 \<and>
    card (set (findall_instructions None (upper query))) \<le> 1 \<and>
    card (set (findall_addresses query)) \<le> 1 \<longrightarrow>
    build_context rt p query max_items = build_context rt' p query max_items) \<and>
   (searchable_text item = Inr text \<and> set kws = set kws' \<and> distinct kws \<and> distinct kws' \<and>
    \<not> (\<exists>kw \<in> set kws. occurs_before text 100 kw \<and> \<not> occurs_before text 50 kw) \<longrightarrow>
    calculate_relevance_score item q kws = calculate_relevance_score item q kws') \<and>
   ((\<forall>key \<in> set [''name'', ''description'', ''topic'', ''content'']. map_of item key = map_of item' key) \<and>
    lower q = lower q' \<longrightarrow>
    calculate_relevance_score item q kws = calculate_relevance_score item' q' kws)"
proof (intro conjI impI)
  assume "mcp_available rt = mcp_available rt' \<and>
    extract_keywords (str_rank rt) query = extract_keywords (str_rank rt') query \<and>
    set_iter (str_rank rt) (findall_instructions None (upper query)) =
      set_iter (str_rank rt') (findall_instructions None (upper query)) \<and>
    set_iter (str_rank rt) (findall_addresses query) =
      set_iter (str_rank rt') (findall_addresses query) \<and>
    is_available p = is_available p' \<and>
    get_relevant_mods p (extract_keywords (str_rank rt) query) =
      get_relevant_mods p' (extract_keywords (str_rank rt) query) \<and>
    get_relevant_registers p (extract_keywords (str_rank rt) query) =
      get_relevant_registers p' (extract_keywords (str_rank rt) query) \<and>
    get_relevant_components p (extract_keywords (str_rank rt) query) =
      get_relevant_components p' (extract_keywords (str_rank rt) query) \<and>
    get_relevant_knowledge p (extract_keywords (str_rank rt) query) =
      get_relevant_knowledge p' (extract_keywords (str_rank rt) query)"
  then show "build_context rt p query max_items = build_context rt' p' query max_items"
    by (intro build_context_order) (elim conjE, assumption)+
next
  assume a: "mcp_available rt = mcp_available rt' \<and>
    card (set (extract_keywords (str_rank rt) query)) \<le> 1 \<and>
    card (set (findall_instructions None (upper query))) \<le> 1 \<and>
    card (set (findall_addresses query)) \<le> 1"
  have "card (set (map normalize_keyword
          (filter (\<lambda>keyword. contains (lower query) keyword) all_keywords))) \<le> 1"
    using a by (simp add: extract_keywords_def Let_def)
  then have k: "extract_keywords (str_rank rt) query = extract_keywords (str_rank rt') query"
    unfolding extract_keywords_def Let_def by (rule set_iter_small)
  from a have i: "set_iter (str_rank rt) (findall_instructions None (upper query)) =
      set_iter (str_rank rt') (findall_instructions None (upper query))"
    by (intro set_iter_small) simp
  from a have d: "set_iter (str_rank rt) (findall_addresses query) =
      set_iter (str_rank rt') (findall_addresses query)"
    by (intro set_iter_small) simp
  from a have m: "mcp_available rt = mcp_available rt'" by simp
  show "build_context rt p query max_items = build_context rt' p query max_items"
    by (rule build_context_order[OF m k i d]) (rule refl)+
next
  assume "searchable_text item = Inr text \<and> set kws = set kws' \<and> distinct kws \<and> distinct kws' \<and>
    \<not> (\<exists>kw \<in> set kws. occurs_before text 100 kw \<and> \<not> occurs_before text 50 kw)"
  then show "calculate_relevance_score item q kws = calculate_relevance_score item q kws'"
    using score_order_independent by blast
next
  assume a: "(\<forall>key \<in> set [''name'', ''description'', ''topic'', ''content'']. map_of item key = map_of item' key) \<and>
    lower q = lower q'"
  then have "text_part item ''name'' = text_part item' ''name''"
    "text_part item ''description'' = text_part item' ''description''"
    "text_part item ''topic'' = text_part item' ''topic''"
    "text_part item ''content'' = text_part item' ''content''"
    by (simp_all add: text_part_def)
  then have "searchable_text item = searchable_text item'"
    by (simp only: searchable_text_def)
  moreover from a have "lower q = lower q'" by (rule conjunct2)
  ultimately show "calculate_relevance_score item q kws = calculate_relevance_score item' q' kws"
    by (simp only: calculate_relevance_score_def)
qed

text \<open>
  Two processes with different string hashes and two stores that differ in the answer to a
  query that is not issued: for the query \<open>Infinite Magic LDA\<close> the three sets are iterated
  in the same order, and for the query \<open>magic LDA\<close> each of them has at most one element.
  In the scored item the keywords \<open>ppu\<close> and \<open>cpu\<close> first occur at the indices 0 and 12.
\<close>

theorem build_context_deterministic_witness:
  "components_where_name_in example_store [] \<noteq> components_where_name_in example_store_variant [] \<and>
   str_rank example_runtime ''STA'' \<noteq> str_rank alternative_runtime ''LDA'' \<and>
   build_context example_runtime \<lparr>driver = Some example_store\<rparr> ''Infinite Magic LDA'' 10 =
     build_context alternative_runtime \<lparr>driver = Some example_store_variant\<rparr> ''Infinite Magic LDA'' 10 \<and>
   build_context example_runtime \<lparr>driver = Some example_store\<rparr> ''magic LDA'' 10 =
     build_context alternative_runtime \<lparr>driver = Some example_store\<rparr> ''magic LDA'' 10 \<and>
   calculate_relevance_score item_full_score ''zzz'' [''ppu'', ''cpu''] =
     calculate_relevance_score item_full_score ''zzz'' [''cpu'', ''ppu''] \<and>
   calculate_relevance_score [(''name'', PStr ''magic-a'')] ''Magic'' [''magic''] =
     calculate_relevance_score [(''name'', PStr ''magic-a''), (''_type'', PStr ''mod'')] ''MAGIC'' [''magic'']"
proof -
  note th = build_context_deterministic
  have mc: "mcp_available example_runtime = mcp_available alternative_runtime"
    by (simp add: example_runtime_def alternative_runtime_def)
  have k: "extract_keywords (str_rank example_runtime) ''Infinite Magic LDA'' = [''infinite-magic'', ''magic'']"
    by code_simp
  have k': "extract_keywords (str_rank alternative_runtime) ''Infinite Magic LDA'' = [''infinite-magic'', ''magic'']"
    by code_simp
  have i: "set_iter (str_rank example_runtime) (findall_instructions None (upper ''Infinite Magic LDA'')) =
      set_iter (str_rank alternative_runtime) (findall_instructions None (upper ''Infinite Magic LDA''))"
    by code_simp
  have d: "set_iter (str_rank example_runtime) (findall_addresses ''Infinite Magic LDA'') =
      set_iter (str_rank alternative_runtime) (findall_addresses ''Infinite Magic LDA'')"
    by code_simp
  have a: "is_available \<lparr>driver = Some example_store\<rparr> = is_available \<lparr>driver = Some example_store_variant\<rparr>"
    by (simp add: is_available_def)
  have m: "get_relevant_mods \<lparr>driver = Some example_store\<rparr> [''infinite-magic'', ''magic''] =
      get_relevant_mods \<lparr>driver = Some example_store_variant\<rparr> [''infinite-magic'', ''magic'']"
    by (simp add: get_relevant_mods_def Let_def example_store_variant_def)
  have r: "get_relevant_registers \<lparr>driver = Some example_store\<rparr> [''infinite-magic'', ''magic''] =
      get_relevant_registers \<lparr>driver = Some example_store_variant\<rparr> [''infinite-magic'', ''magic'']"
    by (simp add: get_relevant_registers_def example_store_variant_def split: option.splits)
  have c: "get_relevant_components \<lparr>driver = Some example_store\<rparr> [''infinite-magic'', ''magic''] =
      get_relevant_components \<lparr>driver = Some example_store_variant\<rparr> [''infinite-magic'', ''magic'']"
    by (simp add: get_relevant_components_def Let_def component_names_of_def example_store_variant_def)
  have n: "get_relevant_knowledge \<lparr>driver = Some example_store\<rparr> [''infinite-magic'', ''magic''] =
      get_relevant_knowledge \<lparr>driver = Some example_store_variant\<rparr> [''infinite-magic'', ''magic'']"
    by (simp add: get_relevant_knowledge_def example_store_variant_def)
  have 0: "components_where_name_in example_store [] \<noteq> components_where_name_in example_store_variant []"
    "str_rank example_runtime ''STA'' \<noteq> str_rank alternative_runtime ''LDA''"
    by (simp_all add: example_store_def example_store_variant_def example_runtime_def
        alternative_runtime_def)
  have 1: "build_context example_runtime \<lparr>driver = Some example_store\<rparr> ''Infinite Magic LDA'' 10 =
     build_context alternative_runtime \<lparr>driver = Some example_store_variant\<rparr> ''Infinite Magic LDA'' 10"
    by (rule th[THEN conjunct1, THEN mp], unfold k k') (intro conjI mc refl i d a m r c n)
  have s1: "card (set (extract_keywords (str_rank example_runtime) ''magic LDA'')) \<le> 1"
  proof -
    have "extract_keywords (str_rank example_runtime) ''magic LDA'' = [''magic'']" by code_simp
    then show ?thesis by simp
  qed
  have s2: "card (set (findall_instructions None (upper ''magic LDA''))) \<le> 1"
  proof -
    have "findall_instructions None (upper ''magic LDA'') = [''LDA'']" by code_simp
    then show ?thesis by simp
  qed
  have s3: "card (set (findall_addresses ''magic LDA'')) \<le> 1"
  proof -
    have "findall_addresses ''magic LDA'' = []" by code_simp
    then show ?thesis by simp
  qed
  have 2: "build_context example_runtime \<lparr>driver = Some example_store\<rparr> ''magic LDA'' 10 =
     build_context alternative_runtime \<lparr>driver = Some example_store\<rparr> ''magic LDA'' 10"
    by (rule th[THEN conjunct2, THEN conjunct1, THEN mp]) (intro conjI mc s1 s2 s3)
  have t: "searchable_text item_full_score = Inr text_full_score"
    by code_simp
  have e: "\<not> list_ex (\<lambda>kw. occurs_before text_full_score 100 kw \<and>
       \<not> occurs_before text_full_score 50 kw) [''ppu'', ''cpu'']"
    by code_simp
  have 3: "calculate_relevance_score item_full_score ''zzz'' [''ppu'', ''cpu''] =
     calculate_relevance_score item_full_score ''zzz'' [''cpu'', ''ppu'']"
  proof (rule th[THEN conjunct2, THEN conjunct2, THEN conjunct1, THEN mp], intro conjI)
    show "searchable_text item_full_score = Inr text_full_score"
      by (rule t)
    show "set [''ppu'', ''cpu''] = set [''cpu'', ''ppu'']" by auto
    show "distinct [''ppu'', ''cpu'']" "distinct [''cpu'', ''ppu'']" by simp_all
    show "\<not> (\<exists>kw \<in> set [''ppu'', ''cpu''].
        occurs_before text_full_score 100 kw \<and> \<not> occurs_before text_full_score 50 kw)"
      using e unfolding list_ex_iff .
  qed
  have f: "\<forall>key \<in> set [''name'', ''description'', ''topic'', ''content''].
      map_of [(''name'', PStr ''magic-a'')] key =
      map_of [(''name'', PStr ''magic-a''), (''_type'', PStr ''mod'')] key"
    by simp
  have l: "lower ''Magic'' = lower ''MAGIC''" by code_simp
  have 4: "calculate_relevance_score [(''name'', PStr ''magic-a'')] ''Magic'' [''magic''] =
     calculate_relevance_score [(''name'', PStr ''magic-a''), (''_type'', PStr ''mod'')] ''MAGIC'' [''magic'']"
    by (rule th[THEN conjunct2, THEN conjunct2, THEN conjunct2, THEN mp]) (intro conjI f l)
  from 0 1 2 3 4 show ?thesis by (intro conjI)
qed

text \<open>
  Claim C7 as stated fails: the outcome depends on the iteration order of string sets,
  which Python derives from a string hash that changes from process to process. The same
  item, query and keyword set score 7 when the set is iterated as \<open>bank\<close>, \<open>rom\<close> and 8
  when it is iterated as \<open>rom\<close>, \<open>bank\<close>. The same query against the same store yields two
  different contexts when the set of detected mnemonics is iterated as \<open>LDA\<close>, \<open>STA\<close> in
  one process and as \<open>STA\<close>, \<open>LDA\<close> in another.
\<close>

theorem iteration_order_counterexample:
  "set [''bank'', ''rom''] = set [''rom'', ''bank''] \<and>
   calculate_relevance_score item_far_then_near ''zzz'' [''bank'', ''rom''] = Inr 7 \<and>
   calculate_relevance_score item_far_then_near ''zzz'' [''rom'', ''bank''] = Inr 8 \<and>
   mcp_available example_runtime = mcp_available alternative_runtime \<and>
   extract_keywords (str_rank example_runtime) ''magic LDA STA'' =
     extract_keywords (str_rank alternative_runtime) ''magic LDA STA'' \<and>
   set_iter (str_rank example_runtime) (findall_instructions None (upper ''magic LDA STA'')) =
     [''LDA'', ''STA''] \<and>
   set_iter (str_rank alternative_runtime) (findall_instructions None (upper ''magic LDA STA'')) =
     [''STA'', ''LDA''] \<and>
   build_context example_runtime \<lparr>driver = Some example_store\<rparr> ''magic LDA STA'' 10 \<noteq>
     build_context alternative_runtime \<lparr>driver = Some example_store\<rparr> ''magic LDA STA'' 10 \<and>
   build_context example_runtime \<lparr>driver = Some example_store\<rparr> ''magic LDA STA'' 10 \<noteq> Inr [] \<and>
   build_context alternative_runtime \<lparr>driver = Some example_store\<rparr> ''magic LDA STA'' 10 \<noteq> Inr []"
proof -
  have "set [''bank'', ''rom''] = set [''rom'', ''bank'']" by auto
  moreover have "calculate_relevance_score item_far_then_near ''zzz'' [''bank'', ''rom''] = Inr 7"
    by code_simp
  moreover have "calculate_relevance_score item_far_then_near ''zzz'' [''rom'', ''bank''] = Inr 8"
    by code_simp
  moreover have "mcp_available example_runtime = mcp_available alternative_runtime"
    by (simp add: example_runtime_def alternative_runtime_def)
  moreover have "extract_keywords (str_rank example_runtime) ''magic LDA STA'' =
     extract_keywords (str_rank alternative_runtime) ''magic LDA STA''"
    by code_simp
  moreover have "set_iter (str_rank example_runtime) (findall_instructions None (upper ''magic LDA STA'')) =
     [''LDA'', ''STA'']"
    by code_simp
  moreover have "set_iter (str_rank alternative_runtime) (findall_instructions None (upper ''magic LDA STA'')) =
     [''STA'', ''LDA'']"
    by code_simp
  moreover have "build_context example_runtime \<lparr>driver = Some example_store\<rparr> ''magic LDA STA'' 10 \<noteq>
     build_context alternative_runtime \<lparr>driver = Some example_store\<rparr> ''magic LDA STA'' 10"
    by code_simp
  moreover have "build_context example_runtime \<lparr>driver = Some example_store\<rparr> ''magic LDA STA'' 10 \<noteq> Inr []"
    by code_simp
  moreover have "build_context alternative_runtime \<lparr>driver = Some example_store\<rparr> ''magic LDA STA'' 10 \<noteq> Inr []"
    by code_simp
  ultimately show ?thesis by (intro conjI)
qed

section \<open>The address detector\<close>

text \<open>
  The pattern matches at a \<open>$\<close> that is followed by four, five or six hexadecimal digits
  and then by the end of the text or a character outside \<^verbatim>\<open>\w\<close>; the group is the run of
  digits.
\<close>

lemma hex_digit_is_word_char: "is_hex_digit c \<Longrightarrow> is_word_char c"
  by (auto simp: is_hex_digit_def is_word_char_def Let_def)

lemma dollar_not_hex_digit: "\<not> is_hex_digit (CHR ''$'')"
  by (simp add: is_hex_digit_def)

lemma find_654:
  "List.find P [6, 5, 4::nat] = Some n \<longleftrightarrow>
     (n = 6 \<and> P 6) \<or> (n = 5 \<and> \<not> P 6 \<and> P 5) \<or> (n = 4 \<and> \<not> P 6 \<and> \<not> P 5 \<and> P 4)"
  by auto

lemma match_address_at_SomeD:
  assumes "match_address_at s = Some g"
  shows "\<exists>rest. s = CHR ''$'' # rest \<and> g = take (length g) rest \<and> length g \<le> length rest \<and>
           list_all is_hex_digit g \<and> length g \<in> {4, 5, 6} \<and>
           word_boundary (Some (last g)) (peek (drop (length g) rest))"
proof -
  from assms obtain rest n where s: "s = CHR ''$'' # rest"
    and f: "List.find (\<lambda>n. n \<le> length rest \<and> list_all is_hex_digit (take n rest) \<and>
              word_boundary (Some (last (take n rest))) (peek (drop n rest))) [6, 5, 4] = Some n"
    and g: "g = take n rest"
    by (auto simp: match_address_at_def split: list.splits if_splits)
  from f have n: "n \<in> {4, 5, 6}" "n \<le> length rest" "list_all is_hex_digit (take n rest)"
    "word_boundary (Some (last (take n rest))) (peek (drop n rest))"
    unfolding find_654 by auto
  from n(2) g have "length g = n" by simp
  with s g n show ?thesis by auto
qed

lemma match_address_at_exact:
  assumes "list_all is_hex_digit g" and "length g \<in> {4, 5, 6}"
    and "post = [] \<or> \<not> is_word_char (hd post)"
  shows "match_address_at (CHR ''$'' # g @ post) = Some g"
proof -
  define P where "P = (\<lambda>n. n \<le> length (g @ post) \<and> list_all is_hex_digit (take n (g @ post)) \<and>
              word_boundary (Some (last (take n (g @ post)))) (peek (drop n (g @ post))))"
  have g_ne: "g \<noteq> []" using assms(2) by auto
  have last_word: "is_word_char (last g)"
    using assms(1) g_ne by (auto simp: list_all_iff intro: hex_digit_is_word_char)
  have boundary: "word_boundary (Some (last g)) (peek post)"
  proof (cases post)
    case Nil
    with last_word show ?thesis by (simp add: word_boundary_def peek_def)
  next
    case (Cons c post')
    with assms(3) have "\<not> is_word_char c" by simp
    with last_word Cons show ?thesis by (simp add: word_boundary_def peek_def)
  qed
  have here: "P (length g)"
    unfolding P_def using assms(1) boundary by simp
  have beyond: "\<not> P n" if "length g < n" for n
  proof (cases post)
    case Nil
    with that show ?thesis unfolding P_def by simp
  next
    case (Cons c post')
    with assms(3) have "\<not> is_hex_digit c" by (auto dest: hex_digit_is_word_char)
    moreover from that Cons have "take n (g @ post) = g @ c # take (n - length g - 1) post'"
      by (simp add: take_Cons')
    then have "c \<in> set (take n (g @ post))" by simp
    ultimately have "\<not> list_all is_hex_digit (take n (g @ post))"
      unfolding list_all_iff by blast
    then show ?thesis unfolding P_def by blast
  qed
  from assms(2) consider "length g = 6" | "length g = 5" | "length g = 4" by auto
  then have "List.find P [6, 5, 4] = Some (length g)"
  proof cases
    case 1
    with here show ?thesis by simp
  next
    case 2
    with here beyond[of 6] show ?thesis by simp
  next
    case 3
    with here beyond[of 6] beyond[of 5] show ?thesis by simp
  qed
  moreover have "match_address_at (CHR ''$'' # g @ post) =
      map_option (\<lambda>n. take n (g @ post)) (List.find P [6, 5, 4])"
    unfolding match_address_at_def P_def by simp
  ultimately show ?thesis by simp
qed

lemma findall_addresses_complete_aux:
  assumes "list_all is_hex_digit g" and "length g \<in> {4, 5, 6}"
    and "post = [] \<or> \<not> is_word_char (hd post)"
  shows "s = pre @ CHR ''$'' # g @ post \<Longrightarrow> g \<in> set (findall_addresses s)"
proof (induction s arbitrary: pre rule: findall_addresses.induct)
  case 1
  then show ?case by simp
next
  case (2 c cs)
  show ?case
  proof (cases pre)
    case Nil
    with "2.prems" have "c # cs = CHR ''$'' # g @ post" by simp
    with match_address_at_exact[OF assms] have "match_address_at (c # cs) = Some g" by simp
    then show ?thesis by simp
  next
    case (Cons x pre')
    with "2.prems" have cs: "cs = pre' @ CHR ''$'' # g @ post" by simp
    show ?thesis
    proof (cases "match_address_at (c # cs)")
      case None
      from "2.IH"(1)[OF None cs] have "g \<in> set (findall_addresses cs)" .
      with None show ?thesis by simp
    next
      case (Some g')
      from match_address_at_SomeD[OF Some]
      have g': "g' = take (length g') cs" "length g' \<le> length cs" "list_all is_hex_digit g'"
        by auto
      have "length g' \<le> length pre'"
      proof (rule ccontr)
        assume "\<not> length g' \<le> length pre'"
        then have lt: "length pre' < length g'" by simp
        have "g' ! length pre' = take (length g') cs ! length pre'"
          using g'(1) by simp
        also have "\<dots> = cs ! length pre'" using lt by simp
        also have "\<dots> = CHR ''$''" by (simp add: cs)
        finally have "CHR ''$'' \<in> set g'"
          using lt nth_mem[of "length pre'" g'] by simp
        with g'(3) show False by (auto simp: list_all_iff dollar_not_hex_digit)
      qed
      then have "drop (length g') cs = drop (length g') pre' @ CHR ''$'' # g @ post"
        by (simp add: cs)
      from "2.IH"(2)[OF Some this] have "g \<in> set (findall_addresses (drop (length g') cs))" .
      with Some show ?thesis by simp
    qed
  qed
qed

lemma findall_addresses_sound:
  "g \<in> set (findall_addresses s) \<Longrightarrow> list_all is_hex_digit g \<and> length g \<in> {4, 5, 6}"
proof (induction s rule: findall_addresses.induct)
  case 1
  then show ?case by simp
next
  case (2 c cs)
  show ?case
  proof (cases "match_address_at (c # cs)")
    case None
    with 2 show ?thesis by simp
  next
    case (Some g')
    from match_address_at_SomeD[OF Some] have "list_all is_hex_digit g' \<and> length g' \<in> {4, 5, 6}"
      by auto
    with 2 Some show ?thesis by auto
  qed
qed

section \<open>The memory-region lookup on detected addresses\<close>

lemma replace_absent_char: "c \<notin> set s \<Longrightarrow> replace s [c] new = s"
  by (induction s) auto

lemma replace_0x_absent: "CHR ''x'' \<notin> set s \<Longrightarrow> replace s ''0x'' [] = s"
proof (induction s)
  case Nil
  then show ?case by simp
next
  case (Cons c cs)
  have "\<not> startswith (c # cs) ''0x''"
  proof
    assume "startswith (c # cs) ''0x''"
    then obtain r where "c # cs = ''0x'' @ r" unfolding startswith_iff by blast
    then have "CHR ''x'' \<in> set cs" by auto
    with Cons.prems show False by simp
  qed
  then have "replace (c # cs) ''0x'' [] = c # replace cs ''0x'' []"
    by (simp only: replace.simps simp_thms if_False)
  moreover from Cons have "replace cs ''0x'' [] = cs" by simp
  ultimately show ?case by simp
qed

lemma hex_digit_not_special: "is_hex_digit c \<Longrightarrow> c \<noteq> CHR ''$'' \<and> c \<noteq> CHR ''x''"
  by (auto simp: is_hex_digit_def)

lemma hex_digit_upper: "is_hex_digit c \<Longrightarrow> is_hex_digit (upper_char c)"
  by (auto simp: is_hex_digit_def upper_char_def Let_def)

lemma int16_hex: "s \<noteq> [] \<Longrightarrow> list_all is_hex_digit s \<Longrightarrow> \<exists>v. int16 s = Inr v"
  by (simp add: int16_def)

lemma ppu_registers_rows:
  "list_all (\<lambda>(k, reg). map_of reg ''name'' \<noteq> None \<and> map_of reg ''description'' \<noteq> None \<and>
       map_of reg ''category'' \<noteq> None \<and> map_of reg ''access'' \<noteq> None) ppu_registers"
  by (simp add: ppu_registers_def)

lemma cpu_registers_rows:
  "list_all (\<lambda>(k, reg). map_of reg ''name'' \<noteq> None \<and> map_of reg ''description'' \<noteq> None \<and>
       map_of reg ''category'' \<noteq> None) cpu_registers"
  by (simp add: cpu_registers_def)

lemma ppu_registers_ok:
  assumes "map_of ppu_registers v = Some reg"
  shows "\<exists>a b c d. getitem reg ''name'' = Inr a \<and> getitem reg ''description'' = Inr b \<and>
           getitem reg ''category'' = Inr c \<and> getitem reg ''access'' = Inr d"
proof -
  from assms have "(v, reg) \<in> set ppu_registers" by (rule map_of_SomeD)
  with ppu_registers_rows show ?thesis
    by (auto simp: list_all_iff getitem_def)
qed

lemma cpu_registers_ok:
  assumes "map_of cpu_registers v = Some reg"
  shows "\<exists>a b c. getitem reg ''name'' = Inr a \<and> getitem reg ''description'' = Inr b \<and>
           getitem reg ''category'' = Inr c"
proof -
  from assms have "(v, reg) \<in> set cpu_registers" by (rule map_of_SomeD)
  with cpu_registers_rows show ?thesis
    by (auto simp: list_all_iff getitem_def)
qed

lemma memory_region_total: "\<exists>d. memory_region addr v = Inr d \<and> d \<noteq> []"
proof (cases "0x2100 \<le> v \<and> v \<le> 0x21FF")
  case True
  show ?thesis
  proof (cases "map_of ppu_registers v")
    case None
    with True show ?thesis by (simp add: memory_region_def)
  next
    case (Some reg)
    from ppu_registers_ok[OF Some] obtain a b c d where
      "getitem reg ''name'' = Inr a" "getitem reg ''description'' = Inr b"
      "getitem reg ''category'' = Inr c" "getitem reg ''access'' = Inr d" by blast
    with True Some show ?thesis by (simp add: memory_region_def then_do_def)
  qed
next
  case False
  note not_ppu = this
  show ?thesis
  proof (cases "0x4200 \<le> v \<and> v \<le> 0x44FF")
    case True
    show ?thesis
    proof (cases "map_of cpu_registers v")
      case None
      with True show ?thesis
        unfolding memory_region_def if_not_P[OF not_ppu] by simp
    next
      case (Some reg)
      from cpu_registers_ok[OF Some] obtain a b c where
        "getitem reg ''name'' = Inr a" "getitem reg ''description'' = Inr b"
        "getitem reg ''category'' = Inr c" by blast
      with True Some show ?thesis
        unfolding memory_region_def if_not_P[OF not_ppu] by (simp add: then_do_def)
    qed
  next
    case False
    show ?thesis
      unfolding memory_region_def if_not_P[OF not_ppu] if_not_P[OF False]
      by (simp split: if_splits)
  qed
qed

lemma snes_memory_map_hex:
  assumes "list_all is_hex_digit g" and "length g \<in> {4, 5, 6}"
  shows "\<exists>d. d \<noteq> [] \<and>
           snes_memory_map (CHR ''$'' # g) = (if length g = 5 then Inr None else Inr (Some d))"
proof -
  from assms(1) have no: "CHR ''$'' \<notin> set g" "CHR ''x'' \<notin> set g"
    by (auto simp: list_all_iff dest: hex_digit_not_special)
  have "replace (CHR ''$'' # g) ''$'' [] = replace g ''$'' []" by simp
  also have "\<dots> = g" using no(1) by (rule replace_absent_char)
  finally have addr: "upper (replace (replace (CHR ''$'' # g) ''$'' []) ''0x'' []) = upper g"
    using no(2) by (simp add: replace_0x_absent)
  have up: "list_all is_hex_digit (upper g)"
    using assms(1) by (auto simp: list_all_iff upper_def hex_digit_upper)
  have len: "length (upper g) = length g" by (simp add: upper_def)
  obtain d where d: "memory_region (upper g) (projr (int16 (upper g))) = Inr d" "d \<noteq> []"
    using memory_region_total by blast
  obtain d' where d': "memory_region (upper g) (projr (int16 (drop 2 (upper g)))) = Inr d'" "d' \<noteq> []"
    using memory_region_total by blast
  from assms(2) consider "length g = 4" | "length g = 5" | "length g = 6" by auto
  then show ?thesis
  proof cases
    case 1
    with len have "upper g \<noteq> []" by auto
    from int16_hex[OF this up] obtain v where v: "int16 (upper g) = Inr v" by blast
    with d 1 len show ?thesis
      unfolding snes_memory_map_def addr by (intro exI[of _ d]) (simp add: then_do_def)
  next
    case 2
    with len d show ?thesis
      unfolding snes_memory_map_def addr by (intro exI[of _ d]) simp
  next
    case 3
    have "list_all is_hex_digit (drop 2 (upper g))" "list_all is_hex_digit (take 2 (upper g))"
      using up by (auto simp: list_all_iff dest: in_set_dropD in_set_takeD)
    moreover have "drop 2 (upper g) \<noteq> []" "take 2 (upper g) \<noteq> []" using 3 len by auto
    ultimately obtain v b where v: "int16 (drop 2 (upper g)) = Inr v" "int16 (take 2 (upper g)) = Inr b"
      using int16_hex by blast
    with d' 3 len show ?thesis
      unfolding snes_memory_map_def addr by (intro exI[of _ d']) (simp add: then_do_def)
  qed
qed

lemma lookup_addresses_total:
  "\<forall>g \<in> set gs. list_all is_hex_digit g \<and> length g \<in> {4, 5, 6} \<Longrightarrow>
   \<exists>ds. lookup_addresses gs = Inr ds \<and> length ds \<le> length gs \<and>
        ((\<exists>g \<in> set gs. length g \<noteq> 5) \<longrightarrow> ds \<noteq> [])"
proof (induction gs)
  case Nil
  then show ?case by simp
next
  case (Cons g gs)
  then obtain ds where ds: "lookup_addresses gs = Inr ds" "length ds \<le> length gs"
    "(\<exists>g \<in> set gs. length g \<noteq> 5) \<longrightarrow> ds \<noteq> []" by auto
  from Cons.prems have "list_all is_hex_digit g" "length g \<in> {4, 5, 6}" by auto
  from snes_memory_map_hex[OF this] obtain d where d: "d \<noteq> []"
    "snes_memory_map (CHR ''$'' # g) = (if length g = 5 then Inr None else Inr (Some d))" by blast
  show ?case
  proof (cases "length g = 5")
    case True
    with d ds show ?thesis by simp
  next
    case False
    with d ds show ?thesis by simp
  qed
qed

lemma length_set_iter: "length (set_iter h xs) = card (set xs)"
  by (metis distinct_card distinct_set_iter set_set_iter)

lemma detect_and_explain_addresses_total:
  "\<exists>ds. detect_and_explain_addresses rt query = Inr ds \<and> length ds \<le> 10"
proof -
  have "\<forall>g \<in> set (take 10 (set_iter (str_rank rt) (findall_addresses query))).
          list_all is_hex_digit g \<and> length g \<in> {4, 5, 6}"
    using findall_addresses_sound by (metis in_set_takeD set_set_iter)
  from lookup_addresses_total[OF this] obtain ds where
    "lookup_addresses (take 10 (set_iter (str_rank rt) (findall_addresses query))) = Inr ds"
    "length ds \<le> length (take 10 (set_iter (str_rank rt) (findall_addresses query)))" by blast
  then show ?thesis
    by (auto simp: detect_and_explain_addresses_def Let_def)
qed

lemma detect_and_explain_addresses_token:
  assumes "mcp_available rt"
    and "query = pre @ CHR ''$'' # g @ post" and "list_all is_hex_digit g" and "length g \<in> {4, 6}"
    and "post = [] \<or> \<not> is_word_char (hd post)"
    and "card (set (findall_addresses query)) \<le> 10"
  shows "\<exists>ds. detect_and_explain_addresses rt query = Inr ds \<and> ds \<noteq> []"
proof -
  let ?u = "set_iter (str_rank rt) (findall_addresses query)"
  from assms(4) have l: "length g \<in> {4, 5, 6}" "length g \<noteq> 5" by auto
  from findall_addresses_complete_aux[OF assms(3) l(1) assms(5) assms(2)]
  have g: "g \<in> set (findall_addresses query)" .
  then have ne: "findall_addresses query \<noteq> []" by auto
  have "take 10 ?u = ?u" using assms(6) by (simp add: length_set_iter)
  moreover have "\<forall>g \<in> set ?u. list_all is_hex_digit g \<and> length g \<in> {4, 5, 6}"
    using findall_addresses_sound by (metis set_set_iter)
  from lookup_addresses_total[OF this] obtain ds where
    "lookup_addresses ?u = Inr ds" "(\<exists>g \<in> set ?u. length g \<noteq> 5) \<longrightarrow> ds \<noteq> []" by blast
  moreover have "\<exists>g \<in> set ?u. length g \<noteq> 5" using g l(2) by auto
  ultimately show ?thesis
    using assms(1) ne by (auto simp: detect_and_explain_addresses_def Let_def)
qed

section \<open>Enrichment sections in the assembled context\<close>

lemma then_do_Inr_iff: "then_do r f = Inr y \<longleftrightarrow> (\<exists>x. r = Inr x \<and> f x = Inr y)"
  by (cases r) (simp_all add: then_do_def)

lemma contains_join_mem: "x \<in> set xs \<Longrightarrow> contains (join sep xs) x"
proof (induction sep xs rule: join.induct)
  case (1 sep)
  then show ?case by simp
next
  case (2 sep y)
  then have "join sep [y] = [] @ x @ []" by simp
  then show ?case unfolding contains_iff by blast
next
  case (3 sep y z zs)
  show ?case
  proof (cases "x = y")
    case True
    then have "join sep (y # z # zs) = [] @ x @ (sep @ join sep (z # zs))" by simp
    then show ?thesis unfolding contains_iff by blast
  next
    case False
    with 3 have "contains (join sep (z # zs)) x" by simp
    then obtain a b where "join sep (z # zs) = a @ x @ b" unfolding contains_iff by blast
    then have "join sep (y # z # zs) = (y @ sep @ a) @ x @ b" by simp
    then show ?thesis unfolding contains_iff by blast
  qed
qed

lemma join_append:
  "xs \<noteq> [] \<Longrightarrow> ys \<noteq> [] \<Longrightarrow> join sep (xs @ ys) = join sep xs @ sep @ join sep ys"
proof (induction sep xs rule: join.induct)
  case (1 sep)
  then show ?case by simp
next
  case (2 sep x)
  then show ?case by (cases ys) simp_all
next
  case (3 sep x y zs)
  then show ?case by simp
qed

text \<open>A run of parts, joined, occurs in the join of the whole list.\<close>

lemma contains_join_section:
  assumes "b \<noteq> []"
  shows "contains (join sep (a @ b @ c)) (join sep b)"
proof -
  have bc: "\<exists>t. join sep (b @ c) = join sep b @ t"
  proof (cases "c = []")
    case True
    then show ?thesis by simp
  next
    case False
    with assms show ?thesis by (simp add: join_append)
  qed
  then obtain t where t: "join sep (b @ c) = join sep b @ t" by blast
  show ?thesis
  proof (cases "a = []")
    case True
    with t have "join sep (a @ b @ c) = [] @ join sep b @ t" by simp
    then show ?thesis unfolding contains_iff by blast
  next
    case False
    moreover from assms have "b @ c \<noteq> []" by simp
    ultimately have "join sep (a @ b @ c) = join sep a @ sep @ join sep (b @ c)"
      by (rule join_append)
    with t have "join sep (a @ b @ c) = (join sep a @ sep) @ join sep b @ t" by simp
    then show ?thesis unfolding contains_iff by blast
  qed
qed

text \<open>
  The enrichment parts are the instruction section followed by the address section; a
  section is its header and the lines of every resolved result, and it is there whenever
  its detector yields a result.
\<close>

lemma enrichment_parts_sections:
  assumes "enrichment_parts rt query = Inr enr"
  shows "\<exists>ip ap. enr = ip @ ap \<and>
     (detect_and_explain_instructions rt query \<noteq> [] \<longrightarrow>
        (\<exists>ls. for_each format_instruction (detect_and_explain_instructions rt query) = Inr ls \<and>
              ip = instructions_header # concat ls)) \<and>
     (\<forall>info. detect_and_explain_addresses rt query = Inr info \<and> info \<noteq> [] \<longrightarrow>
        (\<exists>ls. for_each format_address info = Inr ls \<and> ap = addresses_header # concat ls))"
proof (cases "mcp_available rt")
  case False
  with assms have "enr = [] @ []" by (simp add: enrichment_parts_def)
  moreover from False have "detect_and_explain_instructions rt query = []"
    "detect_and_explain_addresses rt query = Inr []"
    by (simp_all add: detect_and_explain_instructions_def detect_and_explain_addresses_def)
  ultimately show ?thesis by (intro exI[of _ "[]"]) simp
next
  case True
  with assms have "then_do
       (if detect_and_explain_instructions rt query \<noteq> []
        then then_do (for_each format_instruction (detect_and_explain_instructions rt query))
               (\<lambda>ls. Inr (instructions_header # concat ls))
        else Inr [])
       (\<lambda>instruction_parts.
          then_do (detect_and_explain_addresses rt query) (\<lambda>address_info.
          then_do (if address_info \<noteq> []
                   then then_do (for_each format_address address_info)
                          (\<lambda>ls. Inr (addresses_header # concat ls))
                   else Inr []) (\<lambda>address_parts.
            Inr (instruction_parts @ address_parts)))) = Inr enr"
    by (simp add: enrichment_parts_def Let_def)
  then obtain ip info ap where
    ip: "(if detect_and_explain_instructions rt query \<noteq> []
          then then_do (for_each format_instruction (detect_and_explain_instructions rt query))
                 (\<lambda>ls. Inr (instructions_header # concat ls))
          else Inr []) = Inr ip"
    and info: "detect_and_explain_addresses rt query = Inr info"
    and ap: "(if info \<noteq> []
          then then_do (for_each format_address info) (\<lambda>ls. Inr (addresses_header # concat ls))
          else Inr []) = Inr ap"
    and enr: "enr = ip @ ap"
    unfolding then_do_Inr_iff by auto
  have "detect_and_explain_instructions rt query \<noteq> [] \<longrightarrow>
        (\<exists>ls. for_each format_instruction (detect_and_explain_instructions rt query) = Inr ls \<and>
              ip = instructions_header # concat ls)"
    using ip by (auto simp: then_do_Inr_iff split: if_splits)
  moreover have "info \<noteq> [] \<longrightarrow>
        (\<exists>ls. for_each format_address info = Inr ls \<and> ap = addresses_header # concat ls)"
    using ap by (auto simp: then_do_Inr_iff split: if_splits)
  ultimately show ?thesis using info enr by auto
qed

lemma assemble_context_InrD:
  assumes "assemble_context rt query ranked = Inr out" and "out \<noteq> []"
  shows "\<exists>parts enr footer. enrichment_parts rt query = Inr enr \<and>
           out = join nl (context_header # parts @ enr @ [footer])"
proof -
  from assms(1) obtain mp rp cp kp enr where
    e: "enrichment_parts rt query = Inr enr" and
    r: "(let context_parts = mp @ rp @ cp @ kp @ enr
         in if context_parts = [] then Inr []
            else then_do (footer_of rt query (length ranked)) (\<lambda>footer.
                   Inr (join nl ([context_header] @ context_parts @ [footer])))) = Inr out"
    unfolding assemble_context_def then_do_Inr_iff by blast
  from r assms(2) obtain footer where
    "out = join nl ([context_header] @ (mp @ rp @ cp @ kp @ enr) @ [footer])"
    by (auto simp: Let_def then_do_Inr_iff split: if_splits)
  then have "out = join nl (context_header # (mp @ rp @ cp @ kp) @ enr @ [footer])" by simp
  with e show ?thesis by blast
qed

lemma build_context_InrD:
  assumes "build_context rt p query max_items = Inr out" and "out \<noteq> []"
  shows "\<exists>ranked. assemble_context rt query ranked = Inr out"
  using assms
  by (auto simp: build_context_def Let_def then_do_Inr_iff split: if_splits)


lemma build_context_guards:
  assumes "get_relevant_mods p (extract_keywords (str_rank rt) query) = Inr mods"
    and "get_relevant_registers p (extract_keywords (str_rank rt) query) = Inr registers"
    and "get_relevant_components p (extract_keywords (str_rank rt) query) = Inr components"
    and "get_relevant_knowledge p (extract_keywords (str_rank rt) query) = Inr knowledge"
    and "tagged ''mod'' mods @ tagged ''register'' registers @
         tagged ''component'' components @ tagged ''knowledge'' knowledge = [] \<or>
         rerank_results
           (tagged ''mod'' mods @ tagged ''register'' registers @
            tagged ''component'' components @ tagged ''knowledge'' knowledge)
           query (extract_keywords (str_rank rt) query) max_items = Inr []"
  shows "build_context rt p query max_items = Inr []"
proof (cases "is_available p \<and> extract_keywords (str_rank rt) query \<noteq> []")
  case False
  then show ?thesis by (auto simp: build_context_def Let_def)
next
  case True
  then have "build_context rt p query max_items =
       then_do (get_relevant_mods p (extract_keywords (str_rank rt) query)) (\<lambda>mods.
       then_do (get_relevant_registers p (extract_keywords (str_rank rt) query)) (\<lambda>registers.
       then_do (get_relevant_components p (extract_keywords (str_rank rt) query)) (\<lambda>components.
       then_do (get_relevant_knowledge p (extract_keywords (str_rank rt) query)) (\<lambda>knowledge.
         (let all_items = tagged ''mod'' mods @ tagged ''register'' registers @
                          tagged ''component'' components @ tagged ''knowledge'' knowledge
          in if all_items = [] then Inr []
             else
               then_do (rerank_results all_items query (extract_keywords (str_rank rt) query) max_items)
                 (\<lambda>ranked_items.
                    if ranked_items = [] then Inr []
                    else assemble_context rt query ranked_items))))))"
    using build_context_available by blast
  also have "\<dots> =
      (let all_items = tagged ''mod'' mods @ tagged ''register'' registers @
                       tagged ''component'' components @ tagged ''knowledge'' knowledge
       in if all_items = [] then Inr []
          else
            then_do (rerank_results all_items query (extract_keywords (str_rank rt) query) max_items)
              (\<lambda>ranked_items.
                 if ranked_items = [] then Inr []
                 else assemble_context rt query ranked_items))"
    by (simp only: then_do_Inr[OF assms(1)] then_do_Inr[OF assms(2)]
        then_do_Inr[OF assms(3)] then_do_Inr[OF assms(4)])
  also have "\<dots> = Inr []"
    using assms(5) by (auto simp: Let_def then_do_def)
  finally show ?thesis .
qed

text \<open>
  Claim C2, as amended. \<^const>\<open>build_context\<close> returns the empty string, which contains no
  section, when the store is unavailable, when the keyword set is empty, when the four
  retrievals return no record, and when no candidate is left after reranking. Whenever it
  returns a non-empty context, that context contains the whole instruction section (the
  header and the lines of every resolved mnemonic) if the instruction detector yields a
  resolved result, and the whole memory-address section if the address detector does.
  Moreover, when the lookup module is available, for every ASCII query that contains the
  token \<open>$2100\<close> (followed by the end of the query or by a character outside \<^verbatim>\<open>\w\<close>) and
  has at most ten distinct address literals, the address detector yields a resolved
  result.
\<close>

theorem enrichment_sections:
  "(\<not> is_available p \<longrightarrow> build_context rt p query max_items = Inr []) \<and>
   (extract_keywords (str_rank rt) query = [] \<longrightarrow> build_context rt p query max_items = Inr []) \<and>
   (\<forall>mods registers components knowledge.
      get_relevant_mods p (extract_keywords (str_rank rt) query) = Inr mods \<and>
      get_relevant_registers p (extract_keywords (str_rank rt) query) = Inr registers \<and>
      get_relevant_components p (extract_keywords (str_rank rt) query) = Inr components \<and>
      get_relevant_knowledge p (extract_keywords (str_rank rt) query) = Inr knowledge \<and>
      (tagged ''mod'' mods @ tagged ''register'' registers @
       tagged ''component'' components @ tagged ''knowledge'' knowledge = [] \<or>
       rerank_results
         (tagged ''mod'' mods @ tagged ''register'' registers @
          tagged ''component'' components @ tagged ''knowledge'' knowledge)
         query (extract_keywords (str_rank rt) query) max_items = Inr []) \<longrightarrow>
      build_context rt p query max_items = Inr []) \<and>
   \<not> contains [] instructions_header \<and> \<not> contains [] addresses_header \<and>
   (\<forall>out. build_context rt p query max_items = Inr out \<and> out \<noteq> [] \<longrightarrow>
      (detect_and_explain_instructions rt query \<noteq> [] \<longrightarrow>
         (\<exists>ls. for_each format_instruction (detect_and_explain_instructions rt query) = Inr ls \<and>
               contains out (join nl (instructions_header # concat ls)))) \<and>
      (\<forall>info. detect_and_explain_addresses rt query = Inr info \<and> info \<noteq> [] \<longrightarrow>
         (\<exists>ls. for_each format_address info = Inr ls \<and>
               contains out (join nl (addresses_header # concat ls))))) \<and>
   (mcp_available rt \<and> is_ascii query \<and>
    (\<exists>pre post. query = pre @ ''$2100'' @ post \<and> (post = [] \<or> \<not> is_word_char (hd post))) \<and>
    card (set (findall_addresses query)) \<le> 10 \<longrightarrow>
      (\<exists>info. detect_and_explain_addresses rt query = Inr info \<and> info \<noteq> []))"
proof (intro conjI)
  show "\<not> is_available p \<longrightarrow> build_context rt p query max_items = Inr []"
    by (simp add: build_context_def)
  show "extract_keywords (str_rank rt) query = [] \<longrightarrow> build_context rt p query max_items = Inr []"
    by (simp add: build_context_def Let_def)
  show "\<forall>mods registers components knowledge.
      get_relevant_mods p (extract_keywords (str_rank rt) query) = Inr mods \<and>
      get_relevant_registers p (extract_keywords (str_rank rt) query) = Inr registers \<and>
      get_relevant_components p (extract_keywords (str_rank rt) query) = Inr components \<and>
      get_relevant_knowledge p (extract_keywords (str_rank rt) query) = Inr knowledge \<and>
      (tagged ''mod'' mods @ tagged ''register'' registers @
       tagged ''component'' components @ tagged ''knowledge'' knowledge = [] \<or>
       rerank_results
         (tagged ''mod'' mods @ tagged ''register'' registers @
          tagged ''component'' components @ tagged ''knowledge'' knowledge)
         query (extract_keywords (str_rank rt) query) max_items = Inr []) \<longrightarrow>
      build_context rt p query max_items = Inr []"
    using build_context_guards by blast
  show "\<not> contains [] instructions_header"
    by (simp add: contains_def instructions_header_def nl_def)
  show "\<not> contains [] addresses_header"
    by (simp add: contains_def addresses_header_def nl_def)
  show "\<forall>out. build_context rt p query max_items = Inr out \<and> out \<noteq> [] \<longrightarrow>
      (detect_and_explain_instructions rt query \<noteq> [] \<longrightarrow>
         (\<exists>ls. for_each format_instruction (detect_and_explain_instructions rt query) = Inr ls \<and>
               contains out (join nl (instructions_header # concat ls)))) \<and>
      (\<forall>info. detect_and_explain_addresses rt query = Inr info \<and> info \<noteq> [] \<longrightarrow>
         (\<exists>ls. for_each format_address info = Inr ls \<and>
               contains out (join nl (addresses_header # concat ls))))"
  proof (intro allI impI)
    fix out
    assume a: "build_context rt p query max_items = Inr out \<and> out \<noteq> []"
    then obtain ranked where "assemble_context rt query ranked = Inr out"
      using build_context_InrD by blast
    with a obtain parts enr footer where e: "enrichment_parts rt query = Inr enr"
      and out: "out = join nl (context_header # parts @ enr @ [footer])"
      using assemble_context_InrD by blast
    from enrichment_parts_sections[OF e] obtain ip ap where enr: "enr = ip @ ap"
      and i: "detect_and_explain_instructions rt query \<noteq> [] \<longrightarrow>
        (\<exists>ls. for_each format_instruction (detect_and_explain_instructions rt query) = Inr ls \<and>
              ip = instructions_header # concat ls)"
      and d: "\<forall>info. detect_and_explain_addresses rt query = Inr info \<and> info \<noteq> [] \<longrightarrow>
        (\<exists>ls. for_each format_address info = Inr ls \<and> ap = addresses_header # concat ls)"
      by blast
    have oi: "out = join nl ((context_header # parts) @ ip @ (ap @ [footer]))"
      and oa: "out = join nl ((context_header # parts @ ip) @ ap @ [footer])"
      unfolding out enr by simp_all
    have ci: "ip \<noteq> [] \<Longrightarrow> contains out (join nl ip)"
      by (subst oi) (rule contains_join_section)
    have ca: "ap \<noteq> [] \<Longrightarrow> contains out (join nl ap)"
      by (subst oa) (rule contains_join_section)
    show "(detect_and_explain_instructions rt query \<noteq> [] \<longrightarrow>
         (\<exists>ls. for_each format_instruction (detect_and_explain_instructions rt query) = Inr ls \<and>
               contains out (join nl (instructions_header # concat ls)))) \<and>
      (\<forall>info. detect_and_explain_addresses rt query = Inr info \<and> info \<noteq> [] \<longrightarrow>
         (\<exists>ls. for_each format_address info = Inr ls \<and>
               contains out (join nl (addresses_header # concat ls))))"
    proof (intro conjI allI impI)
      assume "detect_and_explain_instructions rt query \<noteq> []"
      with i obtain ls where
        ls: "for_each format_instruction (detect_and_explain_instructions rt query) = Inr ls"
        "ip = instructions_header # concat ls" by blast
      with ci have "contains out (join nl (instructions_header # concat ls))" by simp
      with ls show "\<exists>ls. for_each format_instruction (detect_and_explain_instructions rt query) = Inr ls \<and>
               contains out (join nl (instructions_header # concat ls))" by blast
    next
      fix info
      assume "detect_and_explain_addresses rt query = Inr info \<and> info \<noteq> []"
      with d obtain ls where
        ls: "for_each format_address info = Inr ls" "ap = addresses_header # concat ls" by blast
      with ca have "contains out (join nl (addresses_header # concat ls))" by simp
      with ls show "\<exists>ls. for_each format_address info = Inr ls \<and>
               contains out (join nl (addresses_header # concat ls))" by blast
    qed
  qed
  show "mcp_available rt \<and> is_ascii query \<and>
    (\<exists>pre post. query = pre @ ''$2100'' @ post \<and> (post = [] \<or> \<not> is_word_char (hd post))) \<and>
    card (set (findall_addresses query)) \<le> 10 \<longrightarrow>
      (\<exists>info. detect_and_explain_addresses rt query = Inr info \<and> info \<noteq> [])"
  proof
    assume a: "mcp_available rt \<and> is_ascii query \<and>
      (\<exists>pre post. query = pre @ ''$2100'' @ post \<and> (post = [] \<or> \<not> is_word_char (hd post))) \<and>
      card (set (findall_addresses query)) \<le> 10"
    then obtain pre post where q: "query = pre @ CHR ''$'' # ''2100'' @ post"
      and b: "post = [] \<or> \<not> is_word_char (hd post)" by auto
    have hex: "list_all is_hex_digit ''2100''" by (simp add: is_hex_digit_def)
    have len: "length ''2100'' \<in> {4, 6::nat}" by simp
    from a have m: "mcp_available rt" and c: "card (set (findall_addresses query)) \<le> 10" by auto
    from detect_and_explain_addresses_token[OF m q hex len b c]
    show "\<exists>info. detect_and_explain_addresses rt query = Inr info \<and> info \<noteq> []" .
  qed
qed

text \<open>
  For the query \<open>magic LDA $2100\<close> the example store yields a context with both sections.
  For the query \<open>magic\<close>, the store in which every query matches six records named
  \<open>r1\<close> to \<open>r6\<close> yields candidates that all score 0, and the context is empty.
\<close>

theorem enrichment_sections_witness:
  "(\<exists>out. build_context example_runtime \<lparr>driver = Some example_store\<rparr> ''magic LDA $2100'' 10 = Inr out \<and>
      out \<noteq> [] \<and>
      (\<exists>ls. for_each format_instruction
               (detect_and_explain_instructions example_runtime ''magic LDA $2100'') = Inr ls \<and>
            contains out (join nl (instructions_header # concat ls))) \<and>
      (\<exists>info ls. detect_and_explain_addresses example_runtime ''magic LDA $2100'' = Inr info \<and>
            info \<noteq> [] \<and> for_each format_address info = Inr ls \<and>
            contains out (join nl (addresses_header # concat ls)))) \<and>
   build_context example_runtime \<lparr>driver = None\<rparr> ''magic LDA $2100'' 10 = Inr [] \<and>
   build_context example_runtime \<lparr>driver = Some example_store\<rparr> ''LDA'' 10 = Inr [] \<and>
   build_context example_runtime \<lparr>driver = Some empty_store\<rparr> ''$2100'' 10 = Inr [] \<and>
   build_context example_runtime \<lparr>driver = Some crowded_store\<rparr> ''magic'' 10 = Inr []"
proof -
  note w = enrichment_sections[of "\<lparr>driver = Some example_store\<rparr>" example_runtime
      "''magic LDA $2100''" 10]
  have "case build_context example_runtime \<lparr>driver = Some example_store\<rparr> ''magic LDA $2100'' 10 of
          Inl e \<Rightarrow> False | Inr out \<Rightarrow> out \<noteq> []"
    by code_simp
  then obtain out where out:
    "build_context example_runtime \<lparr>driver = Some example_store\<rparr> ''magic LDA $2100'' 10 = Inr out"
    "out \<noteq> []"
    by (auto split: sum.splits)
  have i: "detect_and_explain_instructions example_runtime ''magic LDA $2100'' \<noteq> []"
    by code_simp
  have m: "mcp_available example_runtime" by (simp add: example_runtime_def)
  have asc: "is_ascii ''magic LDA $2100''" by code_simp
  have t: "''magic LDA $2100'' = ''magic LDA '' @ ''$2100'' @ []" by simp
  have f: "findall_addresses ''magic LDA $2100'' = [''2100'']" by code_simp
  have c: "card (set (findall_addresses ''magic LDA $2100'')) \<le> 10" unfolding f by simp
  from t have "\<exists>pre post. ''magic LDA $2100'' = pre @ ''$2100'' @ post \<and>
      (post = [] \<or> \<not> is_word_char (hd post))" by blast
  with w m asc c obtain info where info:
    "detect_and_explain_addresses example_runtime ''magic LDA $2100'' = Inr info" "info \<noteq> []"
    by blast
  from w out i obtain ls where ls:
    "for_each format_instruction
       (detect_and_explain_instructions example_runtime ''magic LDA $2100'') = Inr ls"
    "contains out (join nl (instructions_header # concat ls))"
    by blast
  from w out info obtain ls' where ls':
    "for_each format_address info = Inr ls'"
    "contains out (join nl (addresses_header # concat ls'))"
    by blast
  from out ls info ls' have 1:
    "\<exists>out. build_context example_runtime \<lparr>driver = Some example_store\<rparr> ''magic LDA $2100'' 10 = Inr out \<and>
      out \<noteq> [] \<and>
      (\<exists>ls. for_each format_instruction
               (detect_and_explain_instructions example_runtime ''magic LDA $2100'') = Inr ls \<and>
            contains out (join nl (instructions_header # concat ls))) \<and>
      (\<exists>info ls. detect_and_explain_addresses example_runtime ''magic LDA $2100'' = Inr info \<and>
            info \<noteq> [] \<and> for_each format_address info = Inr ls \<and>
            contains out (join nl (addresses_header # concat ls)))"
    by blast
  have 2: "build_context example_runtime \<lparr>driver = None\<rparr> ''magic LDA $2100'' 10 = Inr []"
    using enrichment_sections[of "\<lparr>driver = None\<rparr>" example_runtime "''magic LDA $2100''" 10,
        THEN conjunct1]
    by (simp add: is_available_def)
  have kl: "extract_keywords (str_rank example_runtime) ''LDA'' = []" by code_simp
  have 3: "build_context example_runtime \<lparr>driver = Some example_store\<rparr> ''LDA'' 10 = Inr []"
    using enrichment_sections[of "\<lparr>driver = Some example_store\<rparr>" example_runtime "''LDA''" 10,
        THEN conjunct2, THEN conjunct1] kl
    by simp
  have kd: "extract_keywords (str_rank example_runtime) ''$2100'' = [''2100'']" by code_simp
  have 4: "build_context example_runtime \<lparr>driver = Some empty_store\<rparr> ''$2100'' 10 = Inr []"
    by (rule enrichment_sections[of "\<lparr>driver = Some empty_store\<rparr>" example_runtime "''$2100''" 10,
          THEN conjunct2, THEN conjunct2, THEN conjunct1, rule_format,
          where mods = "[]" and registers = "[]" and components = "[]" and knowledge = "[]"],
        unfold kd)
      (simp add: get_relevant_mods_def get_relevant_registers_def get_relevant_components_def
        get_relevant_knowledge_def mod_types_of_def category_of_def component_names_of_def
        limit_def empty_store_def tagged_def)
  have km: "extract_keywords (str_rank example_runtime) ''magic'' = [''magic'']" by code_simp
  have rr: "rerank_results
      (tagged ''mod'' six_rows @ tagged ''register'' (take 5 six_rows) @
       tagged ''component'' (take 3 six_rows) @ tagged ''knowledge'' (take 3 six_rows))
      ''magic'' [''magic''] 10 = Inr []"
    by code_simp
  have 5: "build_context example_runtime \<lparr>driver = Some crowded_store\<rparr> ''magic'' 10 = Inr []"
    by (rule enrichment_sections[of "\<lparr>driver = Some crowded_store\<rparr>" example_runtime "''magic''" 10,
          THEN conjunct2, THEN conjunct2, THEN conjunct1, rule_format,
          where mods = six_rows and registers = "take 5 six_rows" and
            components = "take 3 six_rows" and knowledge = "take 3 six_rows"],
        unfold km)
      (simp add: get_relevant_mods_def get_relevant_registers_def get_relevant_components_def
        get_relevant_knowledge_def mod_types_of_def category_of_def component_names_of_def
        limit_def crowded_store_def rr)
  from 1 2 3 4 5 show ?thesis by (intro conjI)
qed

text \<open>
  Claim C2 as stated fails. For the query \<open>LDA\<close> the instruction detector resolves the
  mnemonic, but the keyword set is empty and \<^const>\<open>build_context\<close> returns the empty
  string. For the query \<open>$2100\<close> the address detector resolves the address and the
  keyword set is not empty, but against a store without records no candidate is
  retrieved and \<^const>\<open>build_context\<close> returns the empty string as well.
\<close>

theorem enrichment_gated_counterexample:
  "detect_and_explain_instructions example_runtime ''LDA'' \<noteq> [] \<and>
   extract_keywords (str_rank example_runtime) ''LDA'' = [] \<and>
   build_context example_runtime \<lparr>driver = Some example_store\<rparr> ''LDA'' 10 = Inr [] \<and>
   \<not> contains [] instructions_header \<and>
   detect_and_explain_addresses example_runtime ''$2100'' \<noteq> Inr [] \<and>
   extract_keywords (str_rank example_runtime) ''$2100'' = [''2100''] \<and>
   build_context example_runtime \<lparr>driver = Some empty_store\<rparr> ''$2100'' 10 = Inr [] \<and>
   \<not> contains [] addresses_header"
proof -
  have "detect_and_explain_instructions example_runtime ''LDA'' \<noteq> []" by code_simp
  moreover have "extract_keywords (str_rank example_runtime) ''LDA'' = []" by code_simp
  moreover have "build_context example_runtime \<lparr>driver = Some example_store\<rparr> ''LDA'' 10 = Inr []"
    by code_simp
  moreover have "\<not> contains [] instructions_header" by code_simp
  moreover have "detect_and_explain_addresses example_runtime ''$2100'' \<noteq> Inr []" by code_simp
  moreover have "extract_keywords (str_rank example_runtime) ''$2100'' = [''2100'']" by code_simp
  moreover have "build_context example_runtime \<lparr>driver = Some empty_store\<rparr> ''$2100'' 10 = Inr []"
    by code_simp
  moreover have "\<not> contains [] addresses_header" by code_simp
  ultimately show ?thesis by (intro conjI)
qed


text \<open>
  Claim C8: the address detector at a literal of five digits. The pattern
  \<^verbatim>\<open>[0-9A-Fa-f]{4,6}\<close> matches \<open>$12345\<close>, which the lookup then resolves to nothing. Such
  matches take part in the deduplication and count towards the cap of ten: when ten
  five-digit literals are iterated first, the address \<open>$2100\<close>, which resolves on its
  own, is cut off and nothing is returned.
\<close>

theorem address_detector_five_digits:
  "findall_addresses ''$12345'' = [''12345''] \<and>
   snes_memory_map ''$12345'' = Inr None \<and>
   detect_and_explain_addresses example_runtime
     ''$10000 $10001 $10002 $10003 $10004 $10005 $10006 $10007 $10008 $10009 $2100'' = Inr [] \<and>
   detect_and_explain_addresses example_runtime ''$2100'' \<noteq> Inr []"
proof -
  have "findall_addresses ''$12345'' = [''12345'']" by code_simp
  moreover have "snes_memory_map ''$12345'' = Inr None" by code_simp
  moreover have "detect_and_explain_addresses example_runtime
     ''$10000 $10001 $10002 $10003 $10004 $10005 $10006 $10007 $10008 $10009 $2100'' = Inr []"
    by code_simp
  moreover have "detect_and_explain_addresses example_runtime ''$2100'' \<noteq> Inr []"
    by code_simp
  ultimately show ?thesis by (intro conjI)
qed

end
